theory Spec2Isabelle
  imports Main "HOL-Library.Word"
begin

unbundle bit_operations_syntax

section \<open>The Scubapro G2 driver of libdivecomputer (src/scubapro_g2.c)\<close>

text \<open>
  The driver talks to a dive computer over USB HID packets of a fixed size, downloads a
  memory dump and splits it into dives by scanning backwards for start markers.

  C types: \<open>unsigned char\<close> is an 8-bit word, \<open>unsigned int\<close> a 32-bit word whose
  arithmetic wraps around, \<open>int\<close> a HOL integer in the range of 32 bits (the driver's
  \<open>int\<close> arithmetic never leaves that range, see \<open>receive_data\<close>). A pointer into an
  array is the array together with an offset.
\<close>

type_synonym byte = "8 word"
type_synonym uint = "32 word"
type_synonym ptr = "byte list \<times> nat"

text \<open>
  Modelled from the spec: the status codes (\<open>dc_status_t\<close>) are declared in common.h,
  which is not among the sources. The driver itself returns \<open>SUCCESS\<close>, \<open>INVALIDARGS\<close>,
  \<open>NOMEMORY\<close>, \<open>IO\<close>, \<open>PROTOCOL\<close> and \<open>DATAFORMAT\<close> (the error kinds of the spec) and
  passes on whatever status a failing write of the transport reports.
\<close>

datatype dc_status =
    DC_STATUS_SUCCESS
  | DC_STATUS_DONE
  | DC_STATUS_UNSUPPORTED
  | DC_STATUS_INVALIDARGS
  | DC_STATUS_NOMEMORY
  | DC_STATUS_NODEVICE
  | DC_STATUS_NOACCESS
  | DC_STATUS_IO
  | DC_STATUS_TIMEOUT
  | DC_STATUS_PROTOCOL
  | DC_STATUS_DATAFORMAT
  | DC_STATUS_CANCELLED

text \<open>
  How a call ends: it returns a value (\<open>Ret\<close>); or it reads or writes memory outside
  the object it was given, which is undefined behaviour in C (\<open>Undefined\<close>); or it
  never returns, because a blocking transport call never completes (\<open>Blocked\<close>).
\<close>

datatype 'a exec = Blocked | Undefined | Ret 'a

fun bind_exec :: "'a exec \<Rightarrow> ('a \<Rightarrow> 'b exec) \<Rightarrow> 'b exec" where
  "bind_exec Blocked f = Blocked"
| "bind_exec Undefined f = Undefined"
| "bind_exec (Ret x) f = f x"

subsection \<open>Memory access\<close>

text \<open>Reading \<open>n\<close> bytes at offset \<open>off\<close> of an object: \<open>None\<close> outside the object.\<close>

definition mem_read :: "byte list \<Rightarrow> nat \<Rightarrow> nat \<Rightarrow> byte list option" where
  "mem_read data off n =
     (if off + n \<le> length data then Some (take n (drop off data)) else None)"

text \<open>\<open>memcpy (dst + off, src, n)\<close>: \<open>None\<close> when it leaves either object.\<close>

definition mem_write :: "byte list \<Rightarrow> nat \<Rightarrow> byte list \<Rightarrow> nat \<Rightarrow> byte list option" where
  "mem_write dst off src n =
     (if off + n \<le> length dst \<and> n \<le> length src
      then Some (take off dst @ take n src @ drop (off + n) dst) else None)"

text \<open>
  Modelled from the spec: \<open>array_uint32_le\<close> is declared in array.h, which is not among
  the sources; the spec reads every such field as a 4-byte little-endian integer.
\<close>

definition array_uint32_le :: "byte list \<Rightarrow> uint" where
  "array_uint32_le b =
     ucast (b ! 0) + push_bit 8 (ucast (b ! 1)) + push_bit 16 (ucast (b ! 2))
       + push_bit 24 (ucast (b ! 3))"

subsection \<open>The transport and the device\<close>

text \<open>
  Modelled from the spec: the USB HID transport (usbhid.h) is an external collaborator
  with blocking \<open>read\<close> and \<open>write\<close>. Its behaviour during a run is the sequence of
  results its reads deliver (a status and the bytes transferred) and the sequence of
  statuses its writes return; \<open>tx\<close> logs the packets handed to \<open>write\<close>. A call beyond
  the end of a sequence is a call that never completes.
\<close>

record dc_usbhid =
  rx :: "(dc_status \<times> byte list) list"
  tx_status :: "dc_status list"
  tx :: "byte list list"

definition dc_usbhid_read :: "dc_usbhid \<Rightarrow> nat \<Rightarrow> (dc_status \<times> byte list \<times> dc_usbhid) exec" where
  "dc_usbhid_read h n =
     (case rx h of
        [] \<Rightarrow> Blocked
      | (rc, bytes) # rest \<Rightarrow> Ret (rc, take n bytes, h\<lparr>rx := rest\<rparr>))"

definition dc_usbhid_write :: "dc_usbhid \<Rightarrow> byte list \<Rightarrow> (dc_status \<times> dc_usbhid) exec" where
  "dc_usbhid_write h packet =
     (case tx_status h of
        [] \<Rightarrow> Blocked
      | rc # rest \<Rightarrow> Ret (rc, h\<lparr>tx_status := rest, tx := tx h @ [packet]\<rparr>))"

datatype dc_device_vtable = scubapro_g2_device_vtable | other_device_vtable

datatype dc_event =
    DC_EVENT_PROGRESS (progress_current: uint) (progress_maximum: uint)
  | DC_EVENT_CLOCK (clock_devtime: uint) (clock_systime: int)
  | DC_EVENT_DEVINFO (devinfo_model: uint) (devinfo_firmware: uint) (devinfo_serial: uint)

text \<open>
  \<open>scubapro_g2_device_t\<close>. Of the base structure (\<open>dc_device_t\<close>, device-private.h, not
  among the sources) the model keeps the vtable pointer, which \<open>ISINSTANCE\<close> compares,
  and, in place of the event sink that \<open>device_event_emit\<close> notifies, the list of the
  events emitted so far: progress, clock and devinfo, as the spec lists them.
\<close>

record scubapro_g2_device =
  vtable :: dc_device_vtable
  events :: "dc_event list"
  usbhid :: dc_usbhid
  address :: uint
  timestamp :: uint
  devtime :: uint
  systime :: int

definition ISINSTANCE :: "scubapro_g2_device option \<Rightarrow> bool" where
  "ISINSTANCE device =
     (case device of None \<Rightarrow> False | Some d \<Rightarrow> vtable d = scubapro_g2_device_vtable)"

definition device_event_emit :: "scubapro_g2_device \<Rightarrow> dc_event \<Rightarrow> scubapro_g2_device" where
  "device_event_emit device e = device\<lparr>events := events device @ [e]\<rparr>"

subsection \<open>Extracting the dives from a dump\<close>

text \<open>
  The callback receives a pointer to the dive and its size, a pointer to the fingerprint
  and its size, and the user data, which it may update; it returns a C \<open>int\<close>, zero to
  stop. \<open>dive_call\<close> records one invocation: the offsets of the two pointers in the
  dump, the two sizes and the value returned.
\<close>

type_synonym 'u dc_dive_callback = "ptr \<Rightarrow> uint \<Rightarrow> ptr \<Rightarrow> uint \<Rightarrow> 'u \<Rightarrow> int \<times> 'u"

datatype dive_call =
  Dive_call (c_data: nat) (c_size: uint) (c_fingerprint: nat) (c_fsize: uint) (c_ret: int)

definition header :: "byte list" where
  "header = [0xa5, 0xa5, 0x5a, 0x5a]"

text \<open>
  The \<open>while (current > 0)\<close> loop of \<open>scubapro_g2_extract_dives\<close>. The result is how
  the scan ends, the callback invocations in order, and the user data.
\<close>

function extract_loop ::
  "byte list \<Rightarrow> 'u dc_dive_callback option \<Rightarrow> uint \<Rightarrow> uint \<Rightarrow> 'u
     \<Rightarrow> dc_status exec \<times> dive_call list \<times> 'u" where
  "extract_loop data callback previous current userdata =
     (if current > 0 then
        (let current = current - 1 in
         case mem_read data (unat current) 4 of
           None \<Rightarrow> (Undefined, [], userdata)
         | Some m \<Rightarrow>
             if m = header then
               (case mem_read data (unat current + 4) 4 of
                  None \<Rightarrow> (Undefined, [], userdata)
                | Some lenbytes \<Rightarrow>
                    (let len = array_uint32_le lenbytes in
                     if current + len > previous then (Ret DC_STATUS_DATAFORMAT, [], userdata)
                     else
                       (case callback of
                          None \<Rightarrow>
                            extract_loop data callback current
                              (if current \<ge> 4 then current - 4 else 0) userdata
                        | Some cb \<Rightarrow>
                            (case cb (data, unat current) len (data, unat current + 8) 4 userdata of
                               (r, userdata') \<Rightarrow>
                                 (let call = Dive_call (unat current) len (unat current + 8) 4 r in
                                  if r = 0 then (Ret DC_STATUS_SUCCESS, [call], userdata')
                                  else
                                    (case extract_loop data callback current
                                            (if current \<ge> 4 then current - 4 else 0) userdata' of
                                       (res, calls, u) \<Rightarrow> (res, call # calls, u)))))))
             else extract_loop data callback previous current userdata)
      else (Ret DC_STATUS_SUCCESS, [], userdata))"
  by pat_completeness auto
termination
proof (relation "measure (\<lambda>(data, callback, previous, current, userdata). unat current)")
  show "wf (measure (\<lambda>(data, callback, previous, current, userdata). unat current))"
    by simp
qed (auto simp: word_greater_zero_iff unat_minus_one word_less_nat_alt word_le_nat_alt unat_sub)

declare extract_loop.simps [simp del]

definition scubapro_g2_extract_dives ::
  "scubapro_g2_device option \<Rightarrow> byte list \<Rightarrow> uint \<Rightarrow> 'u dc_dive_callback option \<Rightarrow> 'u
     \<Rightarrow> dc_status exec \<times> dive_call list \<times> 'u" where
  "scubapro_g2_extract_dives abstract data sz callback userdata =
     (if abstract \<noteq> None \<and> \<not> ISINSTANCE abstract then (Ret DC_STATUS_INVALIDARGS, [], userdata)
      else extract_loop data callback sz (if sz \<ge> 4 then sz - 4 else 0) userdata)"

subsection \<open>Framed transfer\<close>

definition PACKET_SIZE :: nat where
  "PACKET_SIZE = 64"

text \<open>
  \<open>receive_data\<close>: the answer is assembled from packets whose first byte is the length
  of the payload that follows. \<open>buffer\<close> is the write cursor, \<open>sz\<close> the C \<open>int\<close>
  holding the number of bytes still missing. The result is the value returned (0 or -1),
  the device and the object written to. A negative \<open>len\<close> handed to \<open>memcpy\<close> becomes
  a huge \<open>size_t\<close>, which leaves both arrays. The loop runs for as long as the
  transport delivers packets: when it needs a read the transport never completes, the
  call does not return (\<open>Blocked\<close>).
\<close>

function receive_data ::
  "scubapro_g2_device \<Rightarrow> ptr \<Rightarrow> int \<Rightarrow> (int \<times> scubapro_g2_device \<times> byte list) exec" where
  "receive_data g2 buffer sz =
     (if sz \<noteq> 0 then
        (case dc_usbhid_read (usbhid g2) PACKET_SIZE of
           Blocked \<Rightarrow> Blocked
         | Undefined \<Rightarrow> Undefined
         | Ret (rc, buf, h) \<Rightarrow>
             (let g2 = g2\<lparr>usbhid := h\<rparr>; transferred = length buf in
              if rc \<noteq> DC_STATUS_SUCCESS then Ret (- 1, g2, fst buffer)
              else if transferred \<noteq> PACKET_SIZE then Ret (- 1, g2, fst buffer)
              else
                (let len = uint (buf ! 0) in
                 if len \<ge> int PACKET_SIZE then Ret (- 1, g2, fst buffer)
                 else
                   (let len = (if len > sz then sz else len) in
                    if len < 0 then Undefined
                    else
                      (case mem_write (fst buffer) (snd buffer) (drop 1 buf) (nat len) of
                         None \<Rightarrow> Undefined
                       | Some mem \<Rightarrow> receive_data g2 (mem, snd buffer + nat len) (sz - len))))))
      else Ret (0, g2, fst buffer))"
  by pat_completeness auto
termination
proof (relation "measure (\<lambda>(g2, buffer, sz). length (rx (usbhid g2)))")
  show "wf (measure (\<lambda>(g2, buffer, sz). length (rx (usbhid g2))))"
    by simp
qed (auto simp: dc_usbhid_read_def split: list.splits)

declare receive_data.simps [simp del]

definition scubapro_g2_transfer ::
  "scubapro_g2_device \<Rightarrow> byte list \<Rightarrow> uint \<Rightarrow> byte list \<Rightarrow> uint
     \<Rightarrow> (dc_status \<times> scubapro_g2_device \<times> byte list) exec" where
  "scubapro_g2_transfer g2 command csize answer asize =
     (if unat csize \<ge> PACKET_SIZE then Ret (DC_STATUS_INVALIDARGS, g2, answer)
      else
        (case mem_read command 0 (unat csize) of
           None \<Rightarrow> Undefined
         | Some c \<Rightarrow>
             bind_exec (dc_usbhid_write (usbhid g2) (ucast csize # c)) (\<lambda>(status, h).
               let g2 = g2\<lparr>usbhid := h\<rparr> in
               if status \<noteq> DC_STATUS_SUCCESS then Ret (status, g2, answer)
               else
                 bind_exec (receive_data g2 (answer, 0) (sint asize)) (\<lambda>(r, g2, answer).
                   if r < 0 then Ret (DC_STATUS_IO, g2, answer)
                   else Ret (DC_STATUS_SUCCESS, g2, answer)))))"

subsection \<open>The fingerprint\<close>

definition scubapro_g2_device_set_fingerprint ::
  "scubapro_g2_device \<Rightarrow> byte list \<Rightarrow> uint \<Rightarrow> (dc_status \<times> scubapro_g2_device) exec" where
  "scubapro_g2_device_set_fingerprint device data sz =
     (if sz \<noteq> 0 \<and> sz \<noteq> 4 then Ret (DC_STATUS_INVALIDARGS, device)
      else if sz \<noteq> 0 then
        (case mem_read data 0 4 of
           None \<Rightarrow> Undefined
         | Some b \<Rightarrow> Ret (DC_STATUS_SUCCESS, device\<lparr>timestamp := array_uint32_le b\<rparr>))
      else Ret (DC_STATUS_SUCCESS, device\<lparr>timestamp := 0\<rparr>))"

subsection \<open>The host and the dump buffer\<close>

text \<open>
  Modelled from the spec: the host the driver runs on, that is the wall clock that
  \<open>dc_datetime_now\<close> (datetime.h, not among the sources) reads right after the clock
  probe, and whether an allocation of a given size succeeds.
\<close>

record host =
  now :: int
  can_alloc :: "nat \<Rightarrow> bool"

definition dc_datetime_now :: "host \<Rightarrow> int" where
  "dc_datetime_now h = now h"

text \<open>
  Modelled from the spec: the growable byte buffer (\<open>dc_buffer_t\<close>, buffer.h) is not
  among the sources. The spec has it cleared at the start of a dump and resized exactly
  once to the negotiated length, a failing resize being an out-of-memory condition. A
  pointer to a buffer may be null (\<open>None\<close>), on which every operation fails; new bytes
  of a resized buffer are zero.
\<close>

type_synonym dc_buffer = "byte list option"

definition dc_buffer_new :: "host \<Rightarrow> nat \<Rightarrow> dc_buffer" where
  "dc_buffer_new h capacity = (if can_alloc h capacity then Some [] else None)"

definition dc_buffer_clear :: "dc_buffer \<Rightarrow> bool \<times> dc_buffer" where
  "dc_buffer_clear buffer = (case buffer of None \<Rightarrow> (False, None) | Some _ \<Rightarrow> (True, Some []))"

definition dc_buffer_resize :: "host \<Rightarrow> dc_buffer \<Rightarrow> nat \<Rightarrow> bool \<times> dc_buffer" where
  "dc_buffer_resize h buffer n =
     (case buffer of
        None \<Rightarrow> (False, None)
      | Some xs \<Rightarrow>
          if can_alloc h n then (True, Some (take n xs @ replicate (n - length xs) 0))
          else (False, Some xs))"

definition dc_buffer_get_data :: "dc_buffer \<Rightarrow> byte list" where
  "dc_buffer_get_data buffer = (case buffer of None \<Rightarrow> [] | Some xs \<Rightarrow> xs)"

definition dc_buffer_get_size :: "dc_buffer \<Rightarrow> nat" where
  "dc_buffer_get_size buffer = (case buffer of None \<Rightarrow> 0 | Some xs \<Rightarrow> length xs)"

text \<open>
  Modelled from the spec: \<open>EVENT_PROGRESS_INITIALIZER\<close> is a macro of device-private.h,
  which is not among the sources. The progress accumulator starts at \<open>current = 0\<close>; its
  maximum is not known before the length is negotiated and starts at the largest value.
\<close>

definition EVENT_PROGRESS_INITIALIZER :: dc_event where
  "EVENT_PROGRESS_INITIALIZER = DC_EVENT_PROGRESS 0 0xFFFFFFFF"

subsection \<open>The dump\<close>

text \<open>The 9-byte command template; its first byte is overwritten with the opcode.\<close>

definition command_template :: "uint \<Rightarrow> byte list" where
  "command_template ts =
     [0x00,
      ucast (ts AND 0xFF),
      ucast (drop_bit 8 ts AND 0xFF),
      ucast (drop_bit 16 ts AND 0xFF),
      ucast (drop_bit 24 ts AND 0xFF),
      0x10,
      0x27,
      0,
      0]"

text \<open>
  \<open>scubapro_g2_device_dump\<close>. \<open>progress\<close> is the local \<open>dc_event_progress_t\<close>; every
  \<open>device_event_emit\<close> appends to the device's event list. The negotiated length is
  \<open>datalen\<close>; the bulk read receives it as an \<open>int\<close>.
\<close>

definition scubapro_g2_device_dump ::
  "host \<Rightarrow> scubapro_g2_device \<Rightarrow> dc_buffer \<Rightarrow> (dc_status \<times> scubapro_g2_device \<times> dc_buffer) exec" where
  "scubapro_g2_device_dump hst device buffer =
     (case dc_buffer_clear buffer of
        (False, buffer) \<Rightarrow> Ret (DC_STATUS_NOMEMORY, device, buffer)
      | (True, buffer) \<Rightarrow>
     (let progress = EVENT_PROGRESS_INITIALIZER;
          device = device_event_emit device progress in
      bind_exec (scubapro_g2_transfer device [0x10] 1 [0] 1) (\<lambda>(rc, device, model).
      if rc \<noteq> DC_STATUS_SUCCESS then Ret (rc, device, buffer) else
      bind_exec (scubapro_g2_transfer device [0x14] 1 [0, 0, 0, 0] 4) (\<lambda>(rc, device, serial).
      if rc \<noteq> DC_STATUS_SUCCESS then Ret (rc, device, buffer) else
      bind_exec (scubapro_g2_transfer device [0x1A] 1 [0, 0, 0, 0] 4) (\<lambda>(rc, device, devtime_bytes).
      if rc \<noteq> DC_STATUS_SUCCESS then Ret (rc, device, buffer) else
     (let device = device\<lparr>systime := dc_datetime_now hst\<rparr>;
          device = device\<lparr>devtime := array_uint32_le devtime_bytes\<rparr>;
          progress = DC_EVENT_PROGRESS (progress_current progress + 9) (progress_maximum progress);
          device = device_event_emit device progress;
          device = device_event_emit device (DC_EVENT_CLOCK (devtime device) (systime device));
          device = device_event_emit device
                     (DC_EVENT_DEVINFO (ucast (model ! 0)) 0 (array_uint32_le serial));
          command = command_template (timestamp device);
          command = command[0 := 0xC6] in
      bind_exec (scubapro_g2_transfer device command 9 [0, 0, 0, 0] 4) (\<lambda>(rc, device, answer).
      if rc \<noteq> DC_STATUS_SUCCESS then Ret (rc, device, buffer) else
     (let datalen = array_uint32_le answer;
          progress = DC_EVENT_PROGRESS (progress_current progress)
                       (4 + 9 + (if datalen \<noteq> 0 then datalen + 4 else 0));
          progress = DC_EVENT_PROGRESS (progress_current progress + 4) (progress_maximum progress);
          device = device_event_emit device progress in
      if datalen = 0 then Ret (DC_STATUS_SUCCESS, device, buffer) else
     (case dc_buffer_resize hst buffer (unat datalen) of
        (False, buffer) \<Rightarrow> Ret (DC_STATUS_NOMEMORY, device, buffer)
      | (True, buffer) \<Rightarrow>
     (let data = dc_buffer_get_data buffer;
          command = command[0 := 0xC4] in
      bind_exec (scubapro_g2_transfer device command 9 answer 4) (\<lambda>(rc, device, answer).
      if rc \<noteq> DC_STATUS_SUCCESS then Ret (rc, device, buffer) else
     (let total = array_uint32_le answer;
          progress = DC_EVENT_PROGRESS (progress_current progress + 4) (progress_maximum progress);
          device = device_event_emit device progress in
      if total \<noteq> datalen + 4 then Ret (DC_STATUS_PROTOCOL, device, buffer) else
      bind_exec (receive_data device (data, 0) (sint datalen)) (\<lambda>(r, device, data).
     (let buffer = Some data in
      if r \<noteq> 0 then Ret (DC_STATUS_IO, device, buffer) else
     (let progress = DC_EVENT_PROGRESS (progress_current progress + datalen)
                       (progress_maximum progress);
          device = device_event_emit device progress in
      Ret (DC_STATUS_SUCCESS, device, buffer))))))))))))))))"

subsection \<open>Download and extraction together\<close>

text \<open>
  \<open>scubapro_g2_device_foreach\<close>. The result is the status, the device, the callback
  invocations and the user data; a scan that leaves the buffer makes the whole call
  undefined.
\<close>

definition scubapro_g2_device_foreach ::
  "host \<Rightarrow> scubapro_g2_device \<Rightarrow> 'u dc_dive_callback option \<Rightarrow> 'u
     \<Rightarrow> (dc_status \<times> scubapro_g2_device \<times> dive_call list \<times> 'u) exec" where
  "scubapro_g2_device_foreach hst abstract callback userdata =
     (let buffer = dc_buffer_new hst 0 in
      if buffer = None then Ret (DC_STATUS_NOMEMORY, abstract, [], userdata)
      else
        bind_exec (scubapro_g2_device_dump hst abstract buffer) (\<lambda>(rc, abstract, buffer).
          if rc \<noteq> DC_STATUS_SUCCESS then Ret (rc, abstract, [], userdata)
          else
            (case scubapro_g2_extract_dives (Some abstract) (dc_buffer_get_data buffer)
                    (of_nat (dc_buffer_get_size buffer)) callback userdata of
               (rc, calls, userdata) \<Rightarrow>
                 bind_exec rc (\<lambda>rc. Ret (rc, abstract, calls, userdata)))))"

section \<open>Concrete sessions and buffers\<close>

text \<open>
  The session as \<open>scubapro_g2_device_open\<close> leaves it: the default values, and the
  transport handle it was given.
\<close>

definition opened :: "dc_usbhid \<Rightarrow> scubapro_g2_device" where
  "opened h =
     \<lparr>vtable = scubapro_g2_device_vtable, events = [], usbhid = h, address = 0,
      timestamp = 0, devtime = 0, systime = - 1\<rparr>"

text \<open>A transport that completes one write and delivers nothing.\<close>

definition h63 :: dc_usbhid where
  "h63 = \<lparr>rx = [], tx_status = [DC_STATUS_SUCCESS], tx = []\<rparr>"

text \<open>A transport whose first write fails.\<close>

definition hio :: dc_usbhid where
  "hio = \<lparr>rx = [], tx_status = [DC_STATUS_IO], tx = []\<rparr>"

text \<open>The host of the examples: any allocation succeeds.\<close>

definition host0 :: host where
  "host0 = \<lparr>now = 1000, can_alloc = (\<lambda>n. True)\<rparr>"

text \<open>A full packet carrying \<open>payload\<close>: the length byte, the payload, zero padding.\<close>

definition packet :: "byte list \<Rightarrow> byte list" where
  "packet payload = of_nat (length payload) # payload @ replicate (63 - length payload) 0"

text \<open>Callbacks: one that always continues, one that stops at the second dive.\<close>

definition keep_going :: "unit dc_dive_callback" where
  "keep_going = (\<lambda>dive dsize fingerprint fsize u. (1, u))"

definition stop_at_second :: "nat dc_dive_callback" where
  "stop_at_second = (\<lambda>dive dsize fingerprint fsize n. (if n = 1 then 0 else 1, Suc n))"

text \<open>A dump that ends in a start marker followed by a single byte.\<close>

definition dump_trailing_marker :: "byte list" where
  "dump_trailing_marker = [0xa5, 0xa5, 0x5a, 0x5a, 0x00]"

text \<open>A dump of one dive of 8 bytes: marker and length, and nothing after them.\<close>

definition dump_short_dive :: "byte list" where
  "dump_short_dive = [0xa5, 0xa5, 0x5a, 0x5a, 8, 0, 0, 0]"

text \<open>
  A dump of 25 bytes with a dive of 12 bytes at offset 13 and, at offset 1, a marker
  whose length field is \<open>0xFFFFFFFF\<close>.
\<close>

definition dump_wrapped :: "byte list" where
  "dump_wrapped =
     [0x00,
      0xa5, 0xa5, 0x5a, 0x5a, 0xff, 0xff, 0xff, 0xff, 1, 2, 3, 4,
      0xa5, 0xa5, 0x5a, 0x5a, 12, 0, 0, 0, 5, 6, 7, 8]"

text \<open>A dump of three dives of 12 bytes each.\<close>

definition dump_three :: "byte list" where
  "dump_three =
     [0xa5, 0xa5, 0x5a, 0x5a, 12, 0, 0, 0, 1, 0, 0, 0,
      0xa5, 0xa5, 0x5a, 0x5a, 12, 0, 0, 0, 2, 0, 0, 0,
      0xa5, 0xa5, 0x5a, 0x5a, 12, 0, 0, 0, 3, 0, 0, 0]"




text \<open>
  Scripts of a whole download. The device answers every probe in one packet: model
  \<open>0x11\<close>, a serial number, a clock value; then the length (0 in the first script, 2
  in the others), the total of the bulk transfer (6, or a wrong 7) and the two bytes
  of the dump. \<open>session_at replies i\<close> is the transport after \<open>i\<close> transfers.
\<close>

definition replies_empty :: "(dc_status \<times> byte list) list" where
  "replies_empty =
     [(DC_STATUS_SUCCESS, packet [0x11]),
      (DC_STATUS_SUCCESS, packet [1, 2, 3, 4]),
      (DC_STATUS_SUCCESS, packet [5, 6, 7, 8]),
      (DC_STATUS_SUCCESS, packet [0, 0, 0, 0])]"

definition replies_two :: "(dc_status \<times> byte list) list" where
  "replies_two =
     [(DC_STATUS_SUCCESS, packet [0x11]),
      (DC_STATUS_SUCCESS, packet [1, 2, 3, 4]),
      (DC_STATUS_SUCCESS, packet [5, 6, 7, 8]),
      (DC_STATUS_SUCCESS, packet [2, 0, 0, 0]),
      (DC_STATUS_SUCCESS, packet [6, 0, 0, 0]),
      (DC_STATUS_SUCCESS, packet [0xAA, 0xBB])]"

definition replies_mismatch :: "(dc_status \<times> byte list) list" where
  "replies_mismatch =
     [(DC_STATUS_SUCCESS, packet [0x11]),
      (DC_STATUS_SUCCESS, packet [1, 2, 3, 4]),
      (DC_STATUS_SUCCESS, packet [5, 6, 7, 8]),
      (DC_STATUS_SUCCESS, packet [2, 0, 0, 0]),
      (DC_STATUS_SUCCESS, packet [7, 0, 0, 0]),
      (DC_STATUS_SUCCESS, packet [0xAA, 0xBB])]"

definition commands_sent :: "byte list list" where
  "commands_sent =
     [[1, 0x10], [1, 0x14], [1, 0x1A],
      [9, 0xC6, 0, 0, 0, 0, 0x10, 0x27, 0, 0],
      [9, 0xC4, 0, 0, 0, 0, 0x10, 0x27, 0, 0]]"

definition session_at :: "(dc_status \<times> byte list) list \<Rightarrow> nat \<Rightarrow> dc_usbhid" where
  "session_at replies i =
     \<lparr>rx = drop i replies,
      tx_status = drop i [DC_STATUS_SUCCESS, DC_STATUS_SUCCESS, DC_STATUS_SUCCESS,
                           DC_STATUS_SUCCESS, DC_STATUS_SUCCESS],
      tx = take i commands_sent\<rparr>"

text \<open>The session after the download of the two bytes.\<close>

definition downloaded_two :: scubapro_g2_device where
  "downloaded_two =
     \<lparr>vtable = scubapro_g2_device_vtable,
      events = [DC_EVENT_PROGRESS 0 0xFFFFFFFF, DC_EVENT_PROGRESS 9 0xFFFFFFFF,
                DC_EVENT_CLOCK 0x08070605 1000, DC_EVENT_DEVINFO 0x11 0 0x04030201,
                DC_EVENT_PROGRESS 13 19, DC_EVENT_PROGRESS 17 19, DC_EVENT_PROGRESS 19 19],
      usbhid = \<lparr>rx = [], tx_status = [], tx = commands_sent\<rparr>,
      address = 0, timestamp = 0, devtime = 0x08070605, systime = 1000\<rparr>"

text \<open>
  Scripts in which the device announces a length of \<open>0xFFFFFFFC\<close> bytes and a total
  of 0 for the bulk transfer. In the first the payload comes as a full packet, in the
  second the read of the payload is short.
\<close>

definition replies_wrap :: "(dc_status \<times> byte list) list" where
  "replies_wrap =
     [(DC_STATUS_SUCCESS, packet [0x11]),
      (DC_STATUS_SUCCESS, packet [1, 2, 3, 4]),
      (DC_STATUS_SUCCESS, packet [5, 6, 7, 8]),
      (DC_STATUS_SUCCESS, packet [0xFC, 0xFF, 0xFF, 0xFF]),
      (DC_STATUS_SUCCESS, packet [0, 0, 0, 0]),
      (DC_STATUS_SUCCESS, packet [0xAA, 0xBB])]"

definition replies_wrap_short :: "(dc_status \<times> byte list) list" where
  "replies_wrap_short =
     [(DC_STATUS_SUCCESS, packet [0x11]),
      (DC_STATUS_SUCCESS, packet [1, 2, 3, 4]),
      (DC_STATUS_SUCCESS, packet [5, 6, 7, 8]),
      (DC_STATUS_SUCCESS, packet [0xFC, 0xFF, 0xFF, 0xFF]),
      (DC_STATUS_SUCCESS, packet [0, 0, 0, 0]),
      (DC_STATUS_SUCCESS, [2, 0xAA, 0xBB])]"

text \<open>The session after the second of these scripts.\<close>

definition downloaded_wrap_short :: scubapro_g2_device where
  "downloaded_wrap_short =
     \<lparr>vtable = scubapro_g2_device_vtable,
      events = [DC_EVENT_PROGRESS 0 0xFFFFFFFF, DC_EVENT_PROGRESS 9 0xFFFFFFFF,
                DC_EVENT_CLOCK 0x08070605 1000, DC_EVENT_DEVINFO 0x11 0 0x04030201,
                DC_EVENT_PROGRESS 13 13, DC_EVENT_PROGRESS 17 13],
      usbhid = \<lparr>rx = [], tx_status = [], tx = commands_sent\<rparr>,
      address = 0, timestamp = 0, devtime = 0x08070605, systime = 1000\<rparr>"

section \<open>Notions used in the statements\<close>

text \<open>
  What the arguments of one callback invocation must be: the dive pointer is at a start
  marker of the dump, the size is the little-endian field after the marker, and the
  fingerprint is the 4 bytes at offset 8 from the marker.
\<close>

definition view_ok :: "byte list \<Rightarrow> dive_call \<Rightarrow> bool" where
  "view_ok data c \<longleftrightarrow>
     mem_read data (c_data c) 4 = Some header
     \<and> (\<exists>lenbytes. mem_read data (c_data c + 4) 4 = Some lenbytes
            \<and> c_size c = array_uint32_le lenbytes)
     \<and> c_fingerprint c = c_data c + 8 \<and> c_fsize c = 4"

text \<open>The payload a packet declares, and the payloads of a sequence of reads in order.\<close>

definition packet_payload :: "byte list \<Rightarrow> byte list" where
  "packet_payload pkt = take (unat (pkt ! 0)) (drop 1 pkt)"

definition payloads :: "(dc_status \<times> byte list) list \<Rightarrow> byte list" where
  "payloads used = concat (map (\<lambda>(rc, pkt). packet_payload pkt) used)"

text \<open>The progress events among a list of events.\<close>

definition progress_events :: "dc_event list \<Rightarrow> dc_event list" where
  "progress_events es =
     filter (\<lambda>e. case e of DC_EVENT_PROGRESS c m \<Rightarrow> True | _ \<Rightarrow> False) es"

text \<open>
  \<open>foreach\<close> as the specification words it: dump into a fresh buffer; when the dump
  fails, its error; when it succeeds, the extraction scan on the buffer's data and
  size, with the same callback and user data.
\<close>

definition foreach_spec ::
  "host \<Rightarrow> scubapro_g2_device \<Rightarrow> 'u dc_dive_callback option \<Rightarrow> 'u
     \<Rightarrow> (dc_status \<times> scubapro_g2_device \<times> dive_call list \<times> 'u) exec" where
  "foreach_spec hst session callback userdata =
     (case scubapro_g2_device_dump hst session (dc_buffer_new hst 0) of
        Blocked \<Rightarrow> Blocked
      | Undefined \<Rightarrow> Undefined
      | Ret (rc, session', buffer) \<Rightarrow>
          if rc = DC_STATUS_SUCCESS then
            (case scubapro_g2_extract_dives (Some session') (dc_buffer_get_data buffer)
                    (of_nat (dc_buffer_get_size buffer)) callback userdata of
               (Blocked, calls, u) \<Rightarrow> Blocked
             | (Undefined, calls, u) \<Rightarrow> Undefined
             | (Ret rc', calls, u) \<Rightarrow> Ret (rc', session', calls, u))
          else Ret (rc, session', [], userdata))"

text \<open>
  The records of a dump as section 4.3 of the specification discovers them, with no
  callback involved: the cursor is decremented and the 4 bytes at it are compared with
  the marker; on a match the length is read after the marker; a record whose end
  \<open>current + len\<close> exceeds \<open>previous\<close> ends the discovery with a data-format error;
  otherwise the record (its offset and length) is discovered, \<open>previous\<close> becomes its
  offset and the cursor restarts 4 bytes below. Offsets and lengths are 32-bit values
  and their sums 32-bit sums, as in the code; a read outside the buffer ends the
  discovery as undefined. The result is how the discovery ends and the records in the
  order of discovery.
\<close>

function scan_records ::
  "byte list \<Rightarrow> uint \<Rightarrow> uint \<Rightarrow> dc_status exec \<times> (nat \<times> uint) list" where
  "scan_records data previous current =
     (if current > 0 then
        (let cur = current - 1 in
         case mem_read data (unat cur) 4 of
           None \<Rightarrow> (Undefined, [])
         | Some m \<Rightarrow>
             if m = header then
               (case mem_read data (unat cur + 4) 4 of
                  None \<Rightarrow> (Undefined, [])
                | Some lenbytes \<Rightarrow>
                    (let len = array_uint32_le lenbytes in
                     if cur + len > previous then (Ret DC_STATUS_DATAFORMAT, [])
                     else
                       (case scan_records data cur (if cur \<ge> 4 then cur - 4 else 0) of
                          (ending, recs) \<Rightarrow> (ending, (unat cur, len) # recs))))
             else scan_records data previous cur)
      else (Ret DC_STATUS_SUCCESS, []))"
  by pat_completeness auto
termination
proof (relation "measure (\<lambda>(data, previous, current). unat current)")
  show "wf (measure (\<lambda>(data, previous, current). unat current))"
    by simp
qed (auto simp: word_greater_zero_iff unat_minus_one word_less_nat_alt word_le_nat_alt unat_sub)

declare scan_records.simps [simp del]

text \<open>
  The callback run over a list of records, newest first, with the user data threaded
  through: every record is handed to the callback as the dive at its offset with its
  length and the fingerprint 8 bytes further; the run stops after the first record on
  which the callback returns zero. The result is the invocations, the user data and
  whether the callback stopped the run.
\<close>

fun feed ::
  "'u dc_dive_callback \<Rightarrow> byte list \<Rightarrow> (nat \<times> uint) list \<Rightarrow> 'u \<Rightarrow> dive_call list \<times> 'u \<times> bool" where
  "feed cb data [] u = ([], u, False)"
| "feed cb data ((start, len) # recs) u =
     (case cb (data, start) len (data, start + 8) 4 u of
        (r, u') \<Rightarrow>
          if r = 0 then ([Dive_call start len (start + 8) 4 r], u', True)
          else
            (case feed cb data recs u' of
               (calls, u'', stopped) \<Rightarrow>
                 (Dive_call start len (start + 8) 4 r # calls, u'', stopped)))"

section \<open>Properties\<close>

subsection \<open>Receiving and transferring\<close>

lemma bind_exec_Ret:
  "bind_exec m f = Ret y \<longleftrightarrow> (\<exists>x. m = Ret x \<and> f x = Ret y)"
  by (cases m) auto

lemma receive_data_0 [simp]: "receive_data g2 buffer 0 = Ret (0, g2, fst buffer)"
  by (simp add: receive_data.simps)

lemma receive_data_Nil:
  "sz \<noteq> 0 \<Longrightarrow> rx (usbhid g2) = [] \<Longrightarrow> receive_data g2 buffer sz = Blocked"
  by (simp add: receive_data.simps dc_usbhid_read_def)

text \<open>One iteration of the loop, on the next result of the transport.\<close>

lemma receive_data_Cons:
  "sz \<noteq> 0 \<Longrightarrow> rx (usbhid g2) = (rc, bytes) # rest \<Longrightarrow>
   receive_data g2 buffer sz =
     (let g2' = g2\<lparr>usbhid := (usbhid g2)\<lparr>rx := rest\<rparr>\<rparr> in
      if rc \<noteq> DC_STATUS_SUCCESS \<or> length bytes < PACKET_SIZE \<or> int PACKET_SIZE \<le> uint (bytes ! 0)
      then Ret (- 1, g2', fst buffer)
      else
        (let len = min (uint (bytes ! 0)) sz in
         if len < 0 then Undefined
         else
           (case mem_write (fst buffer) (snd buffer) (drop 1 (take PACKET_SIZE bytes)) (nat len) of
              None \<Rightarrow> Undefined
            | Some mem \<Rightarrow> receive_data g2' (mem, snd buffer + nat len) (sz - len))))"
  by (subst receive_data.simps)
     (auto simp: dc_usbhid_read_def Let_def PACKET_SIZE_def min_def)

lemma rx_update_triv: "\<exists>rest. g = g\<lparr>usbhid := (usbhid g)\<lparr>rx := rest\<rparr>\<rparr>"
  by (rule exI [of _ "rx (usbhid g)"]) simp

text \<open>Receiving changes nothing of the session but the pending input of the transport.\<close>

lemma receive_data_frame:
  "receive_data g2 buffer sz = Ret (r, g2', mem) \<Longrightarrow>
     \<exists>rest. g2' = g2\<lparr>usbhid := (usbhid g2)\<lparr>rx := rest\<rparr>\<rparr>"
proof (induction "rx (usbhid g2)" arbitrary: g2 buffer sz)
  case Nil
  then show ?case
    by (cases "sz = 0") (auto simp: receive_data_Nil rx_update_triv)
next
  case (Cons p rest)
  obtain rc bytes where p: "p = (rc, bytes)" by (cases p)
  show ?case
  proof (cases "sz = 0")
    case True
    with Cons.prems show ?thesis by (auto simp: rx_update_triv)
  next
    case False
    let ?g = "g2\<lparr>usbhid := (usbhid g2)\<lparr>rx := rest\<rparr>\<rparr>"
    have rx: "rx (usbhid g2) = (rc, bytes) # rest" using Cons.hyps(2) p by simp
    have rest: "rest = rx (usbhid ?g)" by simp
    note IH = Cons.hyps(1) [OF rest]
    from Cons.prems show ?thesis
      unfolding receive_data_Cons [OF False rx]
      by (auto simp: Let_def split: if_splits option.splits dest!: IH)
  qed
qed

lemma receive_data_tx:
  assumes "receive_data g2 buffer sz = Ret (r, g2', mem)"
  shows "tx (usbhid g2') = tx (usbhid g2)" and "tx_status (usbhid g2') = tx_status (usbhid g2)"
  using receive_data_frame [OF assms] by auto

text \<open>The outcome of receiving depends on the session through its transport only.\<close>

lemma receive_data_other:
  assumes "usbhid g = usbhid g2"
  shows "receive_data g2 buffer sz = Ret (r, g2', mem) \<Longrightarrow>
         receive_data g buffer sz = Ret (r, g\<lparr>usbhid := usbhid g2'\<rparr>, mem)"
  using assms
proof (induction "rx (usbhid g2)" arbitrary: g g2 buffer sz)
  case Nil
  then show ?case
    by (cases "sz = 0") (auto simp: receive_data_Nil)
next
  case (Cons p rest)
  obtain rc bytes where p: "p = (rc, bytes)" by (cases p)
  show ?case
  proof (cases "sz = 0")
    case True
    with Cons.prems show ?thesis by simp
  next
    case False
    let ?g2 = "g2\<lparr>usbhid := (usbhid g2)\<lparr>rx := rest\<rparr>\<rparr>"
    let ?g = "g\<lparr>usbhid := (usbhid g)\<lparr>rx := rest\<rparr>\<rparr>"
    have rx2: "rx (usbhid g2) = (rc, bytes) # rest" using Cons.hyps(2) p by simp
    have rx: "rx (usbhid g) = (rc, bytes) # rest" using rx2 Cons.prems(2) by simp
    have rest: "rest = rx (usbhid ?g2)" by simp
    have same: "usbhid ?g = usbhid ?g2" using Cons.prems(2) by simp
    note IH = Cons.hyps(1) [OF rest _ same]
    from Cons.prems(1) show ?thesis
      unfolding receive_data_Cons [OF False rx2] receive_data_Cons [OF False rx]
      by (auto simp: Let_def Cons.prems(2) split: if_splits option.splits dest!: IH)
  qed
qed

lemma transfer_other:
  assumes "usbhid g = usbhid g2"
    and "scubapro_g2_transfer g2 command csize answer asize = Ret (rc, g2', answer')"
  shows "scubapro_g2_transfer g command csize answer asize
           = Ret (rc, g\<lparr>usbhid := usbhid g2'\<rparr>, answer')"
proof (cases "PACKET_SIZE \<le> unat csize")
  case True
  with assms show ?thesis by (auto simp: scubapro_g2_transfer_def)
next
  case False
  show ?thesis
  proof (cases "mem_read command 0 (unat csize)")
    case None
    with assms False show ?thesis by (simp add: scubapro_g2_transfer_def)
  next
    case (Some c)
    from assms(2) False Some obtain status h where
      w: "dc_usbhid_write (usbhid g2) (ucast csize # c) = Ret (status, h)"
      by (auto simp: scubapro_g2_transfer_def bind_exec_Ret)
    show ?thesis
    proof (cases "status = DC_STATUS_SUCCESS")
      case False
      with assms \<open>\<not> PACKET_SIZE \<le> unat csize\<close> Some w show ?thesis
        by (auto simp: scubapro_g2_transfer_def)
    next
      case True
      from assms(2) \<open>\<not> PACKET_SIZE \<le> unat csize\<close> Some w True obtain r where
        r: "receive_data (g2\<lparr>usbhid := h\<rparr>) (answer, 0) (sint asize) = Ret (r, g2', answer')"
        and rc: "rc = (if r < 0 then DC_STATUS_IO else DC_STATUS_SUCCESS)"
        by (auto simp: scubapro_g2_transfer_def bind_exec_Ret split: if_splits)
      have "usbhid (g\<lparr>usbhid := h\<rparr>) = usbhid (g2\<lparr>usbhid := h\<rparr>)" by simp
      from receive_data_other [OF this r]
      have "receive_data (g\<lparr>usbhid := h\<rparr>) (answer, 0) (sint asize)
              = Ret (r, g\<lparr>usbhid := usbhid g2'\<rparr>, answer')"
        by simp
      with assms(1) \<open>\<not> PACKET_SIZE \<le> unat csize\<close> Some w True rc show ?thesis
        by (simp add: scubapro_g2_transfer_def)
    qed
  qed
qed

lemma transfer_frame:
  assumes "scubapro_g2_transfer g2 command csize answer asize = Ret (rc, g2', answer')"
  shows "\<exists>h. g2' = g2\<lparr>usbhid := h\<rparr>"
proof -
  from transfer_other [OF refl assms] assms
  have "g2' = g2\<lparr>usbhid := usbhid g2'\<rparr>" by simp
  then show ?thesis ..
qed

lemma transfer_tx:
  assumes "scubapro_g2_transfer g2 command csize answer asize = Ret (rc, g2', answer')"
    and "unat csize < PACKET_SIZE" and "length command = unat csize"
  shows "tx (usbhid g2') = tx (usbhid g2) @ [ucast csize # command]"
  using assms
  by (auto simp: scubapro_g2_transfer_def bind_exec_Ret mem_read_def dc_usbhid_write_def Let_def
           split: if_splits list.splits dest!: receive_data_tx(1))

text \<open>
  C2 (as amended). A command of \<open>PACKET_SIZE\<close> bytes or more is rejected with
  \<open>DC_STATUS_INVALIDARGS\<close> and the session, transport included, is left as it was: no
  I/O took place. A command of fewer than \<open>PACKET_SIZE\<close> bytes is sent: a failing write
  returns the transport's status after the packet \<open>[csize] @ command\<close> was handed to
  it, and whenever the transfer returns, that packet is the one the transport has
  received.
\<close>

theorem transfer_command_size:
  "(PACKET_SIZE \<le> unat csize \<longrightarrow>
      scubapro_g2_transfer g2 command csize answer asize = Ret (DC_STATUS_INVALIDARGS, g2, answer))
   \<and> (unat csize < PACKET_SIZE \<and> length command = unat csize \<longrightarrow>
        (\<forall>st sts. tx_status (usbhid g2) = st # sts \<and> st \<noteq> DC_STATUS_SUCCESS \<longrightarrow>
           scubapro_g2_transfer g2 command csize answer asize =
             Ret (st, g2\<lparr>usbhid := (usbhid g2)\<lparr>tx_status := sts,
                          tx := tx (usbhid g2) @ [ucast csize # command]\<rparr>\<rparr>, answer))
      \<and> (\<forall>rc g2' answer'.
           scubapro_g2_transfer g2 command csize answer asize = Ret (rc, g2', answer') \<longrightarrow>
             tx (usbhid g2') = tx (usbhid g2) @ [ucast csize # command]))"
proof (intro conjI impI allI)
  assume "PACKET_SIZE \<le> unat csize"
  then show "scubapro_g2_transfer g2 command csize answer asize
               = Ret (DC_STATUS_INVALIDARGS, g2, answer)"
    by (simp add: scubapro_g2_transfer_def)
next
  fix st sts
  assume "unat csize < PACKET_SIZE \<and> length command = unat csize"
    and "tx_status (usbhid g2) = st # sts \<and> st \<noteq> DC_STATUS_SUCCESS"
  then show "scubapro_g2_transfer g2 command csize answer asize =
             Ret (st, g2\<lparr>usbhid := (usbhid g2)\<lparr>tx_status := sts,
                          tx := tx (usbhid g2) @ [ucast csize # command]\<rparr>\<rparr>, answer)"
    by (simp add: scubapro_g2_transfer_def mem_read_def dc_usbhid_write_def)
next
  fix rc g2' answer'
  assume "unat csize < PACKET_SIZE \<and> length command = unat csize"
    and "scubapro_g2_transfer g2 command csize answer asize = Ret (rc, g2', answer')"
  then show "tx (usbhid g2') = tx (usbhid g2) @ [ucast csize # command]"
    using transfer_tx by blast
qed

text \<open>
  A command of 64 bytes is rejected and nothing is written; a command of 63 bytes whose
  write fails has put its 64-byte packet on the transport.
\<close>

theorem transfer_command_size_witness:
  "scubapro_g2_transfer (opened h63) (replicate 64 0) 64 [] 0
     = Ret (DC_STATUS_INVALIDARGS, opened h63, [])
   \<and> scubapro_g2_transfer (opened hio) (replicate 63 0) 63 [] 0
     = Ret (DC_STATUS_IO, opened \<lparr>rx = [], tx_status = [], tx = [63 # replicate 63 0]\<rparr>, [])"
  using transfer_command_size [of 64 "opened h63" "replicate 64 0" "[]" 0]
    transfer_command_size [of 63 "opened hio" "replicate 63 0" "[]" 0]
  by (simp add: PACKET_SIZE_def opened_def h63_def hio_def)

text \<open>
  C2 as stated fails: a command of 63 bytes has \<open>len \<ge> packet_size - 1\<close>, and it is
  not rejected. It is written as one full packet of 64 bytes and the transfer succeeds.
\<close>

theorem transfer_63_counterexample:
  "PACKET_SIZE - 1 \<le> length (replicate 63 (0::byte)) \<and>
   scubapro_g2_transfer (opened h63) (replicate 63 0) 63 [] 0 =
     Ret (DC_STATUS_SUCCESS,
          opened \<lparr>rx = [], tx_status = [], tx = [63 # replicate 63 0]\<rparr>, [])"
  by (simp add: scubapro_g2_transfer_def mem_read_def dc_usbhid_write_def opened_def h63_def
        PACKET_SIZE_def)

subsection \<open>The fingerprint\<close>

text \<open>
  C7. With \<open>data\<close> an array of \<open>sz\<close> bytes: for \<open>sz = 0\<close> the timestamp cursor becomes 0
  and the call succeeds; for \<open>sz = 4\<close> it becomes the little-endian value of \<open>data\<close> and
  the call succeeds; for any other size the call returns \<open>DC_STATUS_INVALIDARGS\<close> and
  the session is what it was. The call always returns, and the transport is untouched.
\<close>

theorem set_fingerprint_cases:
  assumes "length data = unat sz"
  shows "(sz = 0 \<longrightarrow> scubapro_g2_device_set_fingerprint device data sz
                   = Ret (DC_STATUS_SUCCESS, device\<lparr>timestamp := 0\<rparr>))
       \<and> (sz = 4 \<longrightarrow> scubapro_g2_device_set_fingerprint device data sz
                   = Ret (DC_STATUS_SUCCESS, device\<lparr>timestamp := array_uint32_le data\<rparr>))
       \<and> (sz \<noteq> 0 \<and> sz \<noteq> 4 \<longrightarrow> scubapro_g2_device_set_fingerprint device data sz
                   = Ret (DC_STATUS_INVALIDARGS, device))
       \<and> (\<exists>rc d. scubapro_g2_device_set_fingerprint device data sz = Ret (rc, d)
             \<and> usbhid d = usbhid device)"
  using assms by (auto simp: scubapro_g2_device_set_fingerprint_def mem_read_def)

theorem set_fingerprint_cases_witness:
  "scubapro_g2_device_set_fingerprint (opened h63) [0x78, 0x56, 0x34, 0x12] 4
     = Ret (DC_STATUS_SUCCESS, (opened h63)\<lparr>timestamp := 0x12345678\<rparr>)
   \<and> scubapro_g2_device_set_fingerprint ((opened h63)\<lparr>timestamp := 7\<rparr>) [1, 2, 3] 3
     = Ret (DC_STATUS_INVALIDARGS, (opened h63)\<lparr>timestamp := 7\<rparr>)
   \<and> scubapro_g2_device_set_fingerprint ((opened h63)\<lparr>timestamp := 7\<rparr>) [] 0
     = Ret (DC_STATUS_SUCCESS, (opened h63)\<lparr>timestamp := 0\<rparr>)"
  using set_fingerprint_cases [of "[0x78, 0x56, 0x34, 0x12]" 4 "opened h63"]
    set_fingerprint_cases [of "[1, 2, 3]" 3 "(opened h63)\<lparr>timestamp := 7\<rparr>"]
    set_fingerprint_cases [of "[]" 0 "(opened h63)\<lparr>timestamp := 7\<rparr>"]
  by (simp add: array_uint32_le_def)

subsection \<open>The extraction scan\<close>

lemmas scan_eval =
  scubapro_g2_extract_dives_def extract_loop.simps mem_read_def header_def array_uint32_le_def
  word_le_nat_alt word_less_nat_alt

text \<open>
  The invocations of one run of the loop: an invocation that returned zero is the last
  one and the scan then ends in success, and every invocation has the arguments the
  marker found dictates.
\<close>

lemma extract_loop_calls:
  "extract_loop data callback previous current userdata = (res, calls, u') \<Longrightarrow>
     (\<forall>k<length calls. c_ret (calls ! k) = 0 \<longrightarrow>
          length calls = Suc k \<and> res = Ret DC_STATUS_SUCCESS)
     \<and> (\<forall>c\<in>set calls. view_ok data c)"
proof (induction data callback previous current userdata arbitrary: res calls u'
         rule: extract_loop.induct)
  case (1 data callback previous current userdata)
  note eq = "1.prems" [unfolded extract_loop.simps [of data callback previous current userdata]]
  show ?case
  proof (cases "current > 0")
    case False
    with eq show ?thesis by simp
  next
    case pos: True
    show ?thesis
    proof (cases "mem_read data (unat (current - 1)) 4")
      case None
      with eq pos show ?thesis by simp
    next
      case (Some m)
      show ?thesis
      proof (cases "m = header")
        case False
        with eq pos Some
        have "extract_loop data callback previous (current - 1) userdata = (res, calls, u')"
          by simp
        from "1.IH"(3) [OF pos refl Some False this] show ?thesis .
      next
        case hd: True
        show ?thesis
        proof (cases "mem_read data (unat (current - 1) + 4) 4")
          case None
          with eq pos Some hd show ?thesis by simp
        next
          case lb: (Some lenbytes)
          show ?thesis
          proof (cases "current - 1 + array_uint32_le lenbytes > previous")
            case True
            with eq pos Some hd lb show ?thesis by simp
          next
            case fits: False
            show ?thesis
            proof (cases callback)
              case None
              with eq pos Some hd lb fits
              have "extract_loop data callback (current - 1)
                      (if current - 1 \<ge> 4 then current - 1 - 4 else 0) userdata
                      = (res, calls, u')"
                by (simp add: Let_def)
              from "1.IH"(1) [OF pos refl Some hd lb refl fits None this] show ?thesis .
            next
              case cb: (Some cb)
              obtain r ud where
                call: "cb (data, unat (current - 1)) (array_uint32_le lenbytes)
                         (data, unat (current - 1) + 8) 4 userdata = (r, ud)"
                by (cases "cb (data, unat (current - 1)) (array_uint32_le lenbytes)
                             (data, unat (current - 1) + 8) 4 userdata")
              let ?c = "Dive_call (unat (current - 1)) (array_uint32_le lenbytes)
                          (unat (current - 1) + 8) 4 r"
              have ok: "view_ok data ?c"
                using Some hd lb by (simp add: view_ok_def)
              show ?thesis
              proof (cases "r = 0")
                case True
                with eq pos Some hd lb fits cb call
                have "res = Ret DC_STATUS_SUCCESS" "calls = [?c]"
                  by (simp_all add: Let_def)
                with ok show ?thesis by simp
              next
                case False
                obtain res1 calls1 u1 where
                  rec: "extract_loop data callback (current - 1)
                          (if current - 1 \<ge> 4 then current - 1 - 4 else 0) ud
                          = (res1, calls1, u1)"
                  by (metis prod_cases3)
                with eq pos Some hd lb fits cb call False
                have res: "res = res1" "calls = ?c # calls1"
                  by (simp_all add: Let_def)
                from "1.IH"(2) [OF pos refl Some hd lb refl fits cb call [symmetric] refl False rec]
                have IH: "\<forall>k<length calls1. c_ret (calls1 ! k) = 0 \<longrightarrow>
                            length calls1 = Suc k \<and> res1 = Ret DC_STATUS_SUCCESS"
                  "\<forall>c\<in>set calls1. view_ok data c"
                  by simp_all
                show ?thesis
                proof (intro conjI allI impI ballI)
                  fix k assume k: "k < length calls" "c_ret (calls ! k) = 0"
                  with False res obtain k' where "k = Suc k'" by (cases k) auto
                  with k res IH(1) show "length calls = Suc k" "res = Ret DC_STATUS_SUCCESS"
                    by auto
                next
                  fix c assume "c \<in> set calls"
                  with res ok IH(2) show "view_ok data c" by auto
                qed
              qed
            qed
          qed
        qed
      qed
    qed
  qed
qed

text \<open>
  The scan with a callback is the discovery of the records followed by the run of the
  callback over them; a callback that stops the run makes the scan succeed whatever
  the discovery would have met further down.
\<close>

lemma extract_loop_feed:
  "extract_loop data (Some cb) previous current u =
     (case scan_records data previous current of
        (ending, recs) \<Rightarrow>
          (case feed cb data recs u of
             (calls, u', stopped) \<Rightarrow>
               (if stopped then Ret DC_STATUS_SUCCESS else ending, calls, u')))"
proof (induction data previous current arbitrary: u rule: scan_records.induct)
  case (1 data previous current)
  note el = extract_loop.simps [of data "Some cb" previous current u]
  note sr = scan_records.simps [of data previous current]
  show ?case
  proof (cases "current > 0")
    case False
    then show ?thesis by (simp add: el sr)
  next
    case pos: True
    show ?thesis
    proof (cases "mem_read data (unat (current - 1)) 4")
      case None
      with pos show ?thesis by (simp add: el sr)
    next
      case (Some m)
      show ?thesis
      proof (cases "m = header")
        case False
        from "1.IH"(2) [OF pos refl Some False]
        show ?thesis using pos Some False by (simp add: el sr)
      next
        case hd: True
        show ?thesis
        proof (cases "mem_read data (unat (current - 1) + 4) 4")
          case None
          with pos Some hd show ?thesis by (simp add: el sr)
        next
          case lb: (Some lenbytes)
          show ?thesis
          proof (cases "current - 1 + array_uint32_le lenbytes > previous")
            case True
            with pos Some hd lb show ?thesis by (simp add: el sr)
          next
            case fits: False
            note IH = "1.IH"(1) [OF pos refl Some hd lb refl fits]
            obtain r ud where
              call: "cb (data, unat (current - 1)) (array_uint32_le lenbytes)
                       (data, unat (current - 1) + 8) 4 u = (r, ud)"
              by (cases "cb (data, unat (current - 1)) (array_uint32_le lenbytes)
                           (data, unat (current - 1) + 8) 4 u")
            obtain ending recs where
              rec: "scan_records data (current - 1)
                      (if current - 1 \<ge> 4 then current - 1 - 4 else 0) = (ending, recs)"
              by (cases "scan_records data (current - 1)
                      (if current - 1 \<ge> 4 then current - 1 - 4 else 0)")
            obtain calls u' stopped where
              fd: "feed cb data recs ud = (calls, u', stopped)"
              by (metis prod_cases3)
            have lhs: "extract_loop data (Some cb) previous current u =
                  (if r = 0 then (Ret DC_STATUS_SUCCESS,
                       [Dive_call (unat (current - 1)) (array_uint32_le lenbytes)
                          (unat (current - 1) + 8) 4 r], ud)
                   else (if stopped then Ret DC_STATUS_SUCCESS else ending,
                         Dive_call (unat (current - 1)) (array_uint32_le lenbytes)
                          (unat (current - 1) + 8) 4 r # calls, u'))"
              using pos Some hd lb fits call IH [of ud] rec fd
              by (simp add: el Let_def)
            have rhs: "scan_records data previous current =
                  (ending, (unat (current - 1), array_uint32_le lenbytes) # recs)"
              using pos Some hd lb fits rec by (simp add: sr Let_def)
            show ?thesis
              unfolding lhs rhs using call fd by simp
          qed
        qed
      qed
    qed
  qed
qed

text \<open>
  The invocations of a run of the callback are taken from the front of the records,
  without gaps; an invocation that returns zero is the last one; a run that was not
  stopped went through all the records.
\<close>

lemma feed_calls:
  "feed cb data recs u = (calls, u', stopped) \<Longrightarrow>
     map (\<lambda>c. (c_data c, c_size c)) calls = take (length calls) recs
     \<and> (\<forall>k<length calls. c_ret (calls ! k) = 0 \<longrightarrow> length calls = Suc k \<and> stopped)
     \<and> (stopped \<longrightarrow> calls \<noteq> [] \<and> c_ret (last calls) = 0)
     \<and> (\<not> stopped \<longrightarrow> length calls = length recs)"
proof (induction recs arbitrary: u calls u' stopped)
  case Nil
  then show ?case by simp
next
  case (Cons p recs)
  obtain start len where p: "p = (start, len)" by (cases p)
  obtain r ud where call: "cb (data, start) len (data, start + 8) 4 u = (r, ud)"
    by (cases "cb (data, start) len (data, start + 8) 4 u")
  show ?case
  proof (cases "r = 0")
    case True
    with Cons.prems p call show ?thesis by auto
  next
    case False
    obtain calls1 u1 st1 where fd: "feed cb data recs ud = (calls1, u1, st1)"
      by (metis prod_cases3)
    with Cons.prems p call False
    have eq: "calls = Dive_call start len (start + 8) 4 r # calls1" "u' = u1" "stopped = st1"
      by simp_all
    note IH = Cons.IH [OF fd]
    show ?thesis
    proof (intro conjI allI impI)
      show "map (\<lambda>c. (c_data c, c_size c)) calls = take (length calls) (p # recs)"
        using IH eq p by simp
    next
      fix k assume k: "k < length calls" "c_ret (calls ! k) = 0"
      with False eq obtain k' where "k = Suc k'" by (cases k) auto
      with k eq IH show "length calls = Suc k" "stopped" by auto
    next
      assume stopped
      with eq IH show "calls \<noteq> []" "c_ret (last calls) = 0" by auto
    next
      assume "\<not> stopped"
      with eq IH show "length calls = length (p # recs)" by simp
    qed
  qed
qed

text \<open>
  C8. For every buffer and callback, with \<open>recs\<close> the records the dump holds in the
  order of discovery: the scan invokes the callback on the first records of \<open>recs\<close>,
  in order and with the user data threaded through, up to and including the first one
  on which the callback returns zero (false). So if the callback returns zero on the
  invocation for record number \<open>k + 1\<close>, it was invoked exactly \<open>k + 1\<close> times and the
  scan returns \<open>DC_STATUS_SUCCESS\<close>; if it never returns zero, it was invoked on every
  record and the scan ends as the discovery does. Every invocation receives the
  pointer to the record's marker with the record's length, and the 4 bytes at offset 8
  from the marker as fingerprint.
\<close>

theorem extract_dives_early_stop:
  assumes inst: "abstract = None \<or> ISINSTANCE abstract"
    and run: "scubapro_g2_extract_dives abstract data sz (Some cb) userdata = (res, calls, u')"
    and recs: "scan_records data sz (if sz \<ge> 4 then sz - 4 else 0) = (ending, recs)"
  shows "(\<exists>stopped. feed cb data recs userdata = (calls, u', stopped)
            \<and> res = (if stopped then Ret DC_STATUS_SUCCESS else ending))
       \<and> map (\<lambda>c. (c_data c, c_size c)) calls = take (length calls) recs
       \<and> (\<forall>k<length calls. c_ret (calls ! k) = 0 \<longrightarrow>
             length calls = Suc k \<and> res = Ret DC_STATUS_SUCCESS)
       \<and> ((\<forall>c\<in>set calls. c_ret c \<noteq> 0) \<longrightarrow> length calls = length recs \<and> res = ending)
       \<and> (\<forall>c\<in>set calls. view_ok data c)"
proof -
  from inst run have loop:
    "extract_loop data (Some cb) sz (if sz \<ge> 4 then sz - 4 else 0) userdata = (res, calls, u')"
    by (auto simp: scubapro_g2_extract_dives_def)
  obtain fcalls fu stopped where fd: "feed cb data recs userdata = (fcalls, fu, stopped)"
    by (metis prod_cases3)
  from loop [unfolded extract_loop_feed recs] fd
  have eq: "res = (if stopped then Ret DC_STATUS_SUCCESS else ending)" "calls = fcalls" "u' = fu"
    by simp_all
  have fd': "feed cb data recs userdata = (calls, u', stopped)"
    using fd eq(2,3) by simp
  note F = feed_calls [OF fd']
  have never: "length calls = length recs \<and> res = ending" if "\<forall>c\<in>set calls. c_ret c \<noteq> 0"
  proof -
    have "\<not> stopped"
    proof
      assume stopped
      with F have "calls \<noteq> []" "c_ret (last calls) = 0" by auto
      with that show False using last_in_set by blast
    qed
    with F eq(1) show ?thesis by simp
  qed
  from extract_loop_calls [OF loop] have V: "\<forall>c\<in>set calls. view_ok data c" by simp
  have A: "\<exists>stopped. feed cb data recs userdata = (calls, u', stopped)
            \<and> res = (if stopped then Ret DC_STATUS_SUCCESS else ending)"
    using fd' eq(1) by blast
  have B: "map (\<lambda>c. (c_data c, c_size c)) calls = take (length calls) recs"
    using F by blast
  have C: "\<forall>k<length calls. c_ret (calls ! k) = 0 \<longrightarrow>
             length calls = Suc k \<and> res = Ret DC_STATUS_SUCCESS"
  proof (intro allI impI)
    fix k assume "k < length calls" "c_ret (calls ! k) = 0"
    with F have "length calls = Suc k" "stopped" by blast+
    with eq(1) show "length calls = Suc k \<and> res = Ret DC_STATUS_SUCCESS" by simp
  qed
  from A B C never V show ?thesis by blast
qed

text \<open>The three dives of \<open>dump_three\<close>, scanned and discovered.\<close>

lemma dump_three_run:
  "scubapro_g2_extract_dives None dump_three 36 (Some stop_at_second) 0
     = (Ret DC_STATUS_SUCCESS, [Dive_call 24 12 32 4 1, Dive_call 12 12 20 4 0], 2)"
  by (simp add: scan_eval dump_three_def stop_at_second_def)

lemma dump_three_all:
  "scubapro_g2_extract_dives None dump_three 36 (Some keep_going) ()
     = (Ret DC_STATUS_SUCCESS,
        [Dive_call 24 12 32 4 1, Dive_call 12 12 20 4 1, Dive_call 0 12 8 4 1], ())"
  by (simp add: scan_eval dump_three_def keep_going_def)

lemma dump_three_records:
  "scan_records dump_three 36 (if (36::uint) \<ge> 4 then 36 - 4 else 0)
     = (Ret DC_STATUS_SUCCESS, [(24, 12), (12, 12), (0, 12)])"
  by (simp add: scan_records.simps mem_read_def header_def array_uint32_le_def
        word_le_nat_alt word_less_nat_alt dump_three_def)

text \<open>
  Of the three records discovered, the callback that stops at the second is invoked on
  the first two; the callback that never stops is invoked on all three.
\<close>

theorem extract_dives_early_stop_witness:
  "scan_records dump_three 36 32 = (Ret DC_STATUS_SUCCESS, [(24, 12), (12, 12), (0, 12)])
   \<and> scubapro_g2_extract_dives None dump_three 36 (Some stop_at_second) 0
     = (Ret DC_STATUS_SUCCESS, [Dive_call 24 12 32 4 1, Dive_call 12 12 20 4 0], 2)
   \<and> feed stop_at_second dump_three [(24, 12), (12, 12), (0, 12)] 0
     = ([Dive_call 24 12 32 4 1, Dive_call 12 12 20 4 0], 2, True)
   \<and> scubapro_g2_extract_dives None dump_three 36 (Some keep_going) ()
     = (Ret DC_STATUS_SUCCESS,
        [Dive_call 24 12 32 4 1, Dive_call 12 12 20 4 1, Dive_call 0 12 8 4 1], ())
   \<and> view_ok dump_three (Dive_call 0 12 8 4 1)"
proof -
  have n: "(None :: scubapro_g2_device option) = None \<or> ISINSTANCE None" by simp
  from extract_dives_early_stop [OF n dump_three_all dump_three_records]
  have "view_ok dump_three (Dive_call 0 12 8 4 1)" by simp
  moreover from extract_dives_early_stop [OF n dump_three_run dump_three_records]
  have "feed stop_at_second dump_three [(24, 12), (12, 12), (0, 12)] 0
     = ([Dive_call 24 12 32 4 1, Dive_call 12 12 20 4 0], 2, True)"
    by (simp add: stop_at_second_def)
  ultimately show ?thesis
    using dump_three_run dump_three_all dump_three_records by simp
qed

text \<open>
  C10 fails on the code. A start marker in the last seven bytes of the dump makes the
  scan read the length field beyond the end of the buffer; and a dive that ends less
  than 12 bytes after its marker hands the callback a fingerprint that lies outside
  the buffer.
\<close>

theorem extract_dives_reads_outside:
  "scubapro_g2_extract_dives None dump_trailing_marker 5 callback userdata
     = (Undefined, [], userdata)
   \<and> scubapro_g2_extract_dives None dump_short_dive 8 (Some keep_going) ()
     = (Ret DC_STATUS_SUCCESS, [Dive_call 0 8 8 4 1], ())
   \<and> mem_read dump_short_dive 8 4 = None"
  by (simp add: scan_eval dump_trailing_marker_def dump_short_dive_def keep_going_def)

text \<open>
  C1 fails on the code. The sum \<open>current + len\<close> wraps around: with the marker at
  offset 1 and a length field of \<open>0xFFFFFFFF\<close> it is 0, which does not exceed
  \<open>previous\<close>. The scan reports a dive of \<open>0xFFFFFFFF\<close> bytes at offset 1, after the
  dive of 12 bytes at offset 13 that it covers, and returns success.
\<close>

theorem extract_dives_wrapped_length:
  "scubapro_g2_extract_dives None dump_wrapped 25 (Some keep_going) ()
     = (Ret DC_STATUS_SUCCESS, [Dive_call 13 12 21 4 1, Dive_call 1 0xFFFFFFFF 9 4 1], ())
   \<and> 1 + (0xFFFFFFFF :: uint) = 0
   \<and> 13 < 1 + unat (0xFFFFFFFF :: uint)
   \<and> length dump_wrapped < 1 + unat (0xFFFFFFFF :: uint)"
  by (simp add: scan_eval dump_wrapped_def keep_going_def)

subsection \<open>Receiving an answer\<close>

lemma payloads_simps [simp]:
  "payloads [] = []" "payloads ((rc, pkt) # used) = packet_payload pkt @ payloads used"
  by (simp_all add: payloads_def)








text \<open>Evaluation of the transport functions on concrete sessions.\<close>

lemmas io_eval =
  receive_data.simps dc_usbhid_read_def dc_usbhid_write_def mem_write_def mem_read_def
  packet_def opened_def PACKET_SIZE_def



subsection \<open>The dump\<close>

text \<open>
  The outcome of a transfer, and of receiving, on any session that holds the same
  transport.
\<close>

lemma transfer_at:
  assumes "scubapro_g2_transfer g2 command csize answer asize = Ret (rc, g2', answer')"
    and "usbhid g = usbhid g2"
  shows "scubapro_g2_transfer g command csize answer asize
           = Ret (rc, g\<lparr>usbhid := usbhid g2'\<rparr>, answer')"
  using transfer_other [OF assms(2,1)] .

lemma receive_data_at:
  assumes "receive_data g2 buffer sz = Ret (r, g2', mem)"
    and "usbhid g = usbhid g2"
  shows "receive_data g buffer sz = Ret (r, g\<lparr>usbhid := usbhid g2'\<rparr>, mem)"
  using receive_data_other [OF assms(2,1)] .

lemma receive_data_nonneg:
  assumes "receive_data g2 buffer sz = Ret (0, g2', mem')"
  shows "0 \<le> sz"
proof (rule ccontr)
  assume neg: "\<not> 0 \<le> sz"
  then have nz: "sz \<noteq> 0" by simp
  show False
  proof (cases "rx (usbhid g2)")
    case Nil
    with assms nz show False by (simp add: receive_data_Nil)
  next
    case (Cons p rest)
    obtain rc pkt where "p = (rc, pkt)" by (cases p)
    with Cons have rx: "rx (usbhid g2) = (rc, pkt) # rest" by simp
    have "min (uint (pkt ! 0)) sz < 0" using neg by simp
    with assms show False
      unfolding receive_data_Cons [OF nz rx] by (simp add: Let_def split: if_splits)
  qed
qed

lemma mem_write_length: "mem_write dst off src n = Some m \<Longrightarrow> length m = length dst"
  by (auto simp: mem_write_def split: if_splits)

lemma receive_data_length:
  "receive_data g2 (mem, off) sz = Ret (r, g2', mem') \<Longrightarrow> length mem' = length mem"
proof (induction "rx (usbhid g2)" arbitrary: g2 mem off sz)
  case Nil
  then show ?case by (cases "sz = 0") (auto simp: receive_data_Nil)
next
  case (Cons p rest)
  obtain rc pkt where p: "p = (rc, pkt)" by (cases p)
  show ?case
  proof (cases "sz = 0")
    case True
    with Cons.prems show ?thesis by simp
  next
    case False
    let ?g = "g2\<lparr>usbhid := (usbhid g2)\<lparr>rx := rest\<rparr>\<rparr>"
    have rx: "rx (usbhid g2) = (rc, pkt) # rest" using Cons.hyps(2) p by simp
    have rest: "rest = rx (usbhid ?g)" by simp
    note IH = Cons.hyps(1) [OF rest]
    from Cons.prems show ?thesis
      unfolding receive_data_Cons [OF False rx]
      by (auto simp: Let_def split: if_splits option.splits dest!: IH mem_write_length)
  qed
qed

text \<open>One successful transfer of the dump, peeled off a successful dump.\<close>

lemma dump_stage:
  "bind_exec m (\<lambda>(rc, d, a). if rc \<noteq> DC_STATUS_SUCCESS then Ret (rc, d, b) else k d a)
     = Ret (DC_STATUS_SUCCESS, d', b') \<Longrightarrow>
   \<exists>d1 a1. m = Ret (DC_STATUS_SUCCESS, d1, a1) \<and> k d1 a1 = Ret (DC_STATUS_SUCCESS, d', b')"
  by (cases m) (auto split: if_splits)

lemma sint_nonneg_unat:
  fixes x :: uint
  assumes a: "0 \<le> sint x"
  shows "unat x < 2 ^ 31" and "sint x = int (unat x)"
proof -
  have lt: "sint x < 2 ^ 31" using sint_lt [of x] by simp
  then have lt': "sint x < 2 ^ 32" by simp
  have "uint x = take_bit 32 (sint x)" using uint_sint [of x] by simp
  also have "\<dots> = sint x" using a lt' by (simp add: take_bit_int_eq_self)
  finally have u: "uint x = sint x" .
  with lt have "int (unat x) < int (2 ^ 31)" by simp
  then show "unat x < 2 ^ 31" by (rule iffD1 [OF of_nat_less_iff])
  from u show "sint x = int (unat x)" by simp
qed

text \<open>
  A successful dump, given what the probes and the negotiation answer: its events, the
  size of the buffer it returns and the bound on the negotiated length.
\<close>

lemma dump_success_chain:
  assumes t1: "scubapro_g2_transfer device [0x10] 1 [0] 1 = Ret (DC_STATUS_SUCCESS, d1, model)"
    and t2: "scubapro_g2_transfer d1 [0x14] 1 [0, 0, 0, 0] 4 = Ret (DC_STATUS_SUCCESS, d2, serial)"
    and t3: "scubapro_g2_transfer d2 [0x1A] 1 [0, 0, 0, 0] 4 = Ret (DC_STATUS_SUCCESS, d3, clock)"
    and t4: "scubapro_g2_transfer d3 ((command_template (timestamp device))[0 := 0xC6]) 9
               [0, 0, 0, 0] 4 = Ret (DC_STATUS_SUCCESS, d4, answer)"
    and ok: "scubapro_g2_device_dump hst device buffer = Ret (DC_STATUS_SUCCESS, device', buffer')"
  shows "events device' = events device @
             [DC_EVENT_PROGRESS 0 0xFFFFFFFF,
              DC_EVENT_PROGRESS 9 0xFFFFFFFF,
              DC_EVENT_CLOCK (array_uint32_le clock) (now hst),
              DC_EVENT_DEVINFO (ucast (model ! 0)) 0 (array_uint32_le serial),
              DC_EVENT_PROGRESS 13
                (4 + 9 + (if array_uint32_le answer \<noteq> 0 then array_uint32_le answer + 4 else 0))]
             @ (if array_uint32_le answer = 0 then []
                else [DC_EVENT_PROGRESS 17 (4 + 9 + (array_uint32_le answer + 4)),
                      DC_EVENT_PROGRESS (17 + array_uint32_le answer)
                        (4 + 9 + (array_uint32_le answer + 4))])
         \<and> dc_buffer_get_size buffer' = unat (array_uint32_le answer)
         \<and> unat (array_uint32_le answer) < 2 ^ 31"
proof -
  note s1 = transfer_at [OF t1] and s2 = transfer_at [OF t2] and s3 = transfer_at [OF t3]
    and s4 = transfer_at [OF t4]
  from ok obtain b where b: "buffer = Some b"
    by (cases buffer) (auto simp: scubapro_g2_device_dump_def dc_buffer_clear_def)
  show ?thesis
    using ok unfolding scubapro_g2_device_dump_def
    apply (simp add: b dc_buffer_clear_def EVENT_PROGRESS_INITIALIZER_def
          device_event_emit_def s1 s2 s3 s4 dc_datetime_now_def Let_def dc_buffer_resize_def
          dc_buffer_get_data_def dc_buffer_get_size_def split: if_splits)
     apply clarsimp
    apply (drule dump_stage, elim exE conjE)
    apply (drule transfer_frame)
    apply (clarsimp simp: bind_exec_Ret Let_def device_event_emit_def split: if_splits)
    apply (frule receive_data_length)
    apply (frule receive_data_nonneg)
    apply (drule receive_data_frame)
    apply (clarsimp simp: dc_buffer_get_size_def dest!: sint_nonneg_unat(1))
    done
qed

text \<open>Evaluation of a dump on a concrete session.\<close>

lemmas dump_eval =
  scubapro_g2_device_dump_def dc_buffer_clear_def dc_buffer_resize_def dc_buffer_get_data_def
  dc_buffer_get_size_def dc_buffer_new_def EVENT_PROGRESS_INITIALIZER_def device_event_emit_def
  dc_datetime_now_def scubapro_g2_transfer_def command_template_def array_uint32_le_def
  session_at_def commands_sent_def host0_def

lemma dump_two_run:
  "scubapro_g2_device_dump host0 (opened (session_at replies_two 0)) (Some [])
     = Ret (DC_STATUS_SUCCESS, downloaded_two, Some [0xAA, 0xBB])"
  by (simp add: dump_eval io_eval replies_two_def downloaded_two_def Let_def)

text \<open>Evaluation of single transfers on the scripted sessions.\<close>

lemmas session_eval = io_eval scubapro_g2_transfer_def session_at_def commands_sent_def
  command_template_def array_uint32_le_def

lemma progress_no_wrap: "unat (n::uint) < 2 ^ 31 \<Longrightarrow> 17 \<le> 17 + n"
  by (simp add: word_le_nat_alt unat_word_ariths)

lemma progress_unat: "unat (n::uint) < 2 ^ 31 \<Longrightarrow> unat (17 + n) = 17 + unat n"
  by (simp add: unat_word_ariths)

text \<open>
  C4. When the three probes and the length negotiation succeed on the session, in this
  order, \<open>n\<close> is the length decoded from the answer to the negotiation, and the dump
  returns \<open>DC_STATUS_SUCCESS\<close>: the progress events the dump emits have \<open>current\<close>
  equal to 0, 9, 13 and, when \<open>n\<close> is not 0, 17 and \<open>17 + n\<close>, a sequence that never
  decreases; the last one has \<open>maximum = 4 + 9 + (if n \<noteq> 0 then n + 4 else 0)\<close> and
  \<open>current = maximum\<close>, as 32-bit values and as numbers; and the buffer returned holds
  \<open>n\<close> bytes.
\<close>

theorem dump_progress:
  assumes t1: "scubapro_g2_transfer device [0x10] 1 [0] 1 = Ret (DC_STATUS_SUCCESS, d1, model)"
    and t2: "scubapro_g2_transfer d1 [0x14] 1 [0, 0, 0, 0] 4 = Ret (DC_STATUS_SUCCESS, d2, serial)"
    and t3: "scubapro_g2_transfer d2 [0x1A] 1 [0, 0, 0, 0] 4 = Ret (DC_STATUS_SUCCESS, d3, clock)"
    and t4: "scubapro_g2_transfer d3 ((command_template (timestamp device))[0 := 0xC6]) 9
               [0, 0, 0, 0] 4 = Ret (DC_STATUS_SUCCESS, d4, answer)"
    and ok: "scubapro_g2_device_dump hst device buffer = Ret (DC_STATUS_SUCCESS, device', buffer')"
  shows "let n = array_uint32_le answer;
             ps = progress_events (drop (length (events device)) (events device'))
         in map progress_current ps
              = (if n = 0 then [0, 9, 9 + 4] else [0, 9, 9 + 4, 9 + 4 + 4, 9 + 4 + 4 + n])
            \<and> sorted (map progress_current ps)
            \<and> progress_maximum (last ps) = 4 + 9 + (if n \<noteq> 0 then n + 4 else 0)
            \<and> progress_current (last ps) = progress_maximum (last ps)
            \<and> unat (progress_current (last ps)) = 4 + 9 + (if n \<noteq> 0 then unat n + 4 else 0)
            \<and> dc_buffer_get_size buffer' = unat n"
proof -
  define n where "n = array_uint32_le answer"
  from dump_success_chain [OF t1 t2 t3 t4 ok, folded n_def]
  have ev: "events device' = events device @
             [DC_EVENT_PROGRESS 0 0xFFFFFFFF,
              DC_EVENT_PROGRESS 9 0xFFFFFFFF,
              DC_EVENT_CLOCK (array_uint32_le clock) (now hst),
              DC_EVENT_DEVINFO (ucast (model ! 0)) 0 (array_uint32_le serial),
              DC_EVENT_PROGRESS 13 (4 + 9 + (if n \<noteq> 0 then n + 4 else 0))]
             @ (if n = 0 then []
                else [DC_EVENT_PROGRESS 17 (4 + 9 + (n + 4)),
                      DC_EVENT_PROGRESS (17 + n) (4 + 9 + (n + 4))])"
    and sz: "dc_buffer_get_size buffer' = unat n"
    and small: "unat n < 2 ^ 31"
    by blast+
  from small have mono: "17 \<le> 17 + n" by (rule progress_no_wrap)
  have "(9::uint) \<le> 17" "(13::uint) \<le> 17" by simp_all
  then have mono': "9 \<le> 17 + n" "13 \<le> 17 + n"
    using mono by (blast intro: order_trans)+
  note u = progress_unat [OF small]
  show ?thesis
    unfolding Let_def n_def [symmetric] using mono mono' u sz
    by (simp add: ev progress_events_def)
qed

text \<open>The download of two bytes: progress 0, 9, 13, 17, 19 of 19.\<close>

theorem dump_progress_witness:
  "scubapro_g2_device_dump host0 (opened (session_at replies_two 0)) (Some [])
     = Ret (DC_STATUS_SUCCESS, downloaded_two, Some [0xAA, 0xBB])
   \<and> array_uint32_le [2, 0, 0, 0] = 2
   \<and> map progress_current (progress_events (events downloaded_two)) = [0, 9, 13, 17, 19]
   \<and> progress_maximum (last (progress_events (events downloaded_two))) = 4 + 9 + (2 + 4)
   \<and> progress_current (last (progress_events (events downloaded_two))) = 19"
  using dump_progress [where device = "opened (session_at replies_two 0)"
          and ?d1.0 = "opened (session_at replies_two 1)" and model = "[0x11]"
          and ?d2.0 = "opened (session_at replies_two 2)" and serial = "[1, 2, 3, 4]"
          and ?d3.0 = "opened (session_at replies_two 3)" and clock = "[5, 6, 7, 8]"
          and ?d4.0 = "opened (session_at replies_two 4)" and answer = "[2, 0, 0, 0]"
          and hst = host0 and buffer = "Some []" and device' = downloaded_two
          and buffer' = "Some [0xAA, 0xBB]"]
    dump_two_run
  by (simp add: session_eval replies_two_def Let_def)

text \<open>
  C5. When the three probes and the length negotiation succeed on the session, in this
  order, and the answer to the negotiation decodes to 0, the dump returns
  \<open>DC_STATUS_SUCCESS\<close> with the buffer cleared and not resized. The transport is left
  as the negotiation left it: four packets were written, none of them with opcode
  \<open>0xC4\<close>, and nothing was read after the answer to the negotiation.
\<close>

theorem dump_empty:
  assumes t1: "scubapro_g2_transfer device [0x10] 1 [0] 1 = Ret (DC_STATUS_SUCCESS, d1, model)"
    and t2: "scubapro_g2_transfer d1 [0x14] 1 [0, 0, 0, 0] 4 = Ret (DC_STATUS_SUCCESS, d2, serial)"
    and t3: "scubapro_g2_transfer d2 [0x1A] 1 [0, 0, 0, 0] 4 = Ret (DC_STATUS_SUCCESS, d3, clock)"
    and t4: "scubapro_g2_transfer d3 ((command_template (timestamp device))[0 := 0xC6]) 9
               [0, 0, 0, 0] 4 = Ret (DC_STATUS_SUCCESS, d4, answer)"
    and zero: "array_uint32_le answer = 0"
    and buf: "buffer \<noteq> None"
  shows "scubapro_g2_device_dump hst device buffer =
           Ret (DC_STATUS_SUCCESS,
                device\<lparr>events := events device @
                          [DC_EVENT_PROGRESS 0 0xFFFFFFFF,
                           DC_EVENT_PROGRESS 9 0xFFFFFFFF,
                           DC_EVENT_CLOCK (array_uint32_le clock) (now hst),
                           DC_EVENT_DEVINFO (ucast (model ! 0)) 0 (array_uint32_le serial),
                           DC_EVENT_PROGRESS 13 13],
                        usbhid := usbhid d4,
                        devtime := array_uint32_le clock,
                        systime := now hst\<rparr>,
                Some [])
         \<and> tx (usbhid d4) = tx (usbhid device) @
               [[1, 0x10], [1, 0x14], [1, 0x1A],
                9 # (command_template (timestamp device))[0 := 0xC6]]"
proof
  note s1 = transfer_at [OF t1] and s2 = transfer_at [OF t2] and s3 = transfer_at [OF t3]
    and s4 = transfer_at [OF t4]
  from buf obtain b where b: "buffer = Some b" by auto
  show "scubapro_g2_device_dump hst device buffer =
           Ret (DC_STATUS_SUCCESS,
                device\<lparr>events := events device @
                          [DC_EVENT_PROGRESS 0 0xFFFFFFFF,
                           DC_EVENT_PROGRESS 9 0xFFFFFFFF,
                           DC_EVENT_CLOCK (array_uint32_le clock) (now hst),
                           DC_EVENT_DEVINFO (ucast (model ! 0)) 0 (array_uint32_le serial),
                           DC_EVENT_PROGRESS 13 13],
                        usbhid := usbhid d4,
                        devtime := array_uint32_le clock,
                        systime := now hst\<rparr>,
                Some [])"
    by (simp add: scubapro_g2_device_dump_def b dc_buffer_clear_def EVENT_PROGRESS_INITIALIZER_def
          device_event_emit_def s1 s2 s3 s4 zero dc_datetime_now_def Let_def)
  have "tx (usbhid d1) = tx (usbhid device) @ [[1, 0x10]]"
    using transfer_tx [OF t1] by (simp add: PACKET_SIZE_def)
  moreover have "tx (usbhid d2) = tx (usbhid d1) @ [[1, 0x14]]"
    using transfer_tx [OF t2] by (simp add: PACKET_SIZE_def)
  moreover have "tx (usbhid d3) = tx (usbhid d2) @ [[1, 0x1A]]"
    using transfer_tx [OF t3] by (simp add: PACKET_SIZE_def)
  moreover have "tx (usbhid d4) = tx (usbhid d3) @ [9 # (command_template (timestamp device))[0 := 0xC6]]"
    using transfer_tx [OF t4] by (simp add: PACKET_SIZE_def command_template_def)
  ultimately show "tx (usbhid d4) = tx (usbhid device) @
               [[1, 0x10], [1, 0x14], [1, 0x1A],
                9 # (command_template (timestamp device))[0 := 0xC6]]"
    by simp
qed

text \<open>The download of an empty memory into a buffer that held three bytes.\<close>

theorem dump_empty_witness:
  "scubapro_g2_device_dump host0 (opened (session_at replies_empty 0)) (Some [1, 2, 3]) =
     Ret (DC_STATUS_SUCCESS,
          \<lparr>vtable = scubapro_g2_device_vtable,
           events = [DC_EVENT_PROGRESS 0 0xFFFFFFFF, DC_EVENT_PROGRESS 9 0xFFFFFFFF,
                     DC_EVENT_CLOCK 0x08070605 1000, DC_EVENT_DEVINFO 0x11 0 0x04030201,
                     DC_EVENT_PROGRESS 13 13],
           usbhid = \<lparr>rx = [], tx_status = [DC_STATUS_SUCCESS], tx = take 4 commands_sent\<rparr>,
           address = 0, timestamp = 0, devtime = 0x08070605, systime = 1000\<rparr>,
          Some [])"
  using dump_empty [of "opened (session_at replies_empty 0)"
          "opened (session_at replies_empty 1)" "[0x11]"
          "opened (session_at replies_empty 2)" "[1, 2, 3, 4]"
          "opened (session_at replies_empty 3)" "[5, 6, 7, 8]"
          "opened (session_at replies_empty 4)" "[0, 0, 0, 0]" "Some [1, 2, 3]" host0]
  by (simp add: session_eval replies_empty_def host0_def)

text \<open>
  The handshake in the arithmetic of the code. When the probes and the negotiation
  succeed with a length that is not 0, the buffer is resized and the handshake \<open>0xC4\<close>
  succeeds with the answer \<open>total\<close>: if \<open>total\<close> differs from \<open>length + 4\<close> computed
  in 32 bits, the dump returns \<open>DC_STATUS_PROTOCOL\<close> and the transport is left as the
  handshake left it; if they are equal in 32 bits, the payload is received from that
  transport, and the dump returns what receiving it gives.
\<close>

lemma dump_handshake:
  assumes t1: "scubapro_g2_transfer device [0x10] 1 [0] 1 = Ret (DC_STATUS_SUCCESS, d1, model)"
    and t2: "scubapro_g2_transfer d1 [0x14] 1 [0, 0, 0, 0] 4 = Ret (DC_STATUS_SUCCESS, d2, serial)"
    and t3: "scubapro_g2_transfer d2 [0x1A] 1 [0, 0, 0, 0] 4 = Ret (DC_STATUS_SUCCESS, d3, clock)"
    and t4: "scubapro_g2_transfer d3 ((command_template (timestamp device))[0 := 0xC6]) 9
               [0, 0, 0, 0] 4 = Ret (DC_STATUS_SUCCESS, d4, answer)"
    and len: "array_uint32_le answer \<noteq> 0"
    and buf: "buffer \<noteq> None"
    and mem: "can_alloc hst (unat (array_uint32_le answer))"
    and t5: "scubapro_g2_transfer d4 ((command_template (timestamp device))[0 := 0xC4]) 9
               answer 4 = Ret (DC_STATUS_SUCCESS, d5, answer')"
  shows "(array_uint32_le answer' \<noteq> array_uint32_le answer + 4 \<longrightarrow>
         scubapro_g2_device_dump hst device buffer =
           Ret (DC_STATUS_PROTOCOL,
                device\<lparr>events := events device @
                          [DC_EVENT_PROGRESS 0 0xFFFFFFFF,
                           DC_EVENT_PROGRESS 9 0xFFFFFFFF,
                           DC_EVENT_CLOCK (array_uint32_le clock) (now hst),
                           DC_EVENT_DEVINFO (ucast (model ! 0)) 0 (array_uint32_le serial),
                           DC_EVENT_PROGRESS 13 (4 + 9 + (array_uint32_le answer + 4)),
                           DC_EVENT_PROGRESS 17 (4 + 9 + (array_uint32_le answer + 4))],
                        usbhid := usbhid d5,
                        devtime := array_uint32_le clock,
                        systime := now hst\<rparr>,
                Some (replicate (unat (array_uint32_le answer)) 0)))
       \<and> (array_uint32_le answer' = array_uint32_le answer + 4 \<longrightarrow>
           (\<forall>r d6 data.
              receive_data d5 (replicate (unat (array_uint32_le answer)) 0, 0)
                  (sint (array_uint32_le answer)) = Ret (r, d6, data) \<longrightarrow>
              scubapro_g2_device_dump hst device buffer =
                Ret (if r \<noteq> 0 then DC_STATUS_IO else DC_STATUS_SUCCESS,
                     device\<lparr>events := events device @
                          [DC_EVENT_PROGRESS 0 0xFFFFFFFF,
                           DC_EVENT_PROGRESS 9 0xFFFFFFFF,
                           DC_EVENT_CLOCK (array_uint32_le clock) (now hst),
                           DC_EVENT_DEVINFO (ucast (model ! 0)) 0 (array_uint32_le serial),
                           DC_EVENT_PROGRESS 13 (4 + 9 + (array_uint32_le answer + 4)),
                           DC_EVENT_PROGRESS 17 (4 + 9 + (array_uint32_le answer + 4))]
                          @ (if r \<noteq> 0 then []
                             else [DC_EVENT_PROGRESS (17 + array_uint32_le answer)
                                     (4 + 9 + (array_uint32_le answer + 4))]),
                        usbhid := usbhid d6,
                        devtime := array_uint32_le clock,
                        systime := now hst\<rparr>,
                     Some data)))"
proof (intro conjI impI allI)
  note s1 = transfer_at [OF t1] and s2 = transfer_at [OF t2] and s3 = transfer_at [OF t3]
    and s4 = transfer_at [OF t4] and s5 = transfer_at [OF t5]
  from buf obtain b where b: "buffer = Some b" by auto
  {
    assume "array_uint32_le answer' \<noteq> array_uint32_le answer + 4"
    then show "scubapro_g2_device_dump hst device buffer =
           Ret (DC_STATUS_PROTOCOL,
                device\<lparr>events := events device @
                          [DC_EVENT_PROGRESS 0 0xFFFFFFFF,
                           DC_EVENT_PROGRESS 9 0xFFFFFFFF,
                           DC_EVENT_CLOCK (array_uint32_le clock) (now hst),
                           DC_EVENT_DEVINFO (ucast (model ! 0)) 0 (array_uint32_le serial),
                           DC_EVENT_PROGRESS 13 (4 + 9 + (array_uint32_le answer + 4)),
                           DC_EVENT_PROGRESS 17 (4 + 9 + (array_uint32_le answer + 4))],
                        usbhid := usbhid d5,
                        devtime := array_uint32_le clock,
                        systime := now hst\<rparr>,
                Some (replicate (unat (array_uint32_le answer)) 0))"
      by (simp add: scubapro_g2_device_dump_def b dc_buffer_clear_def
            EVENT_PROGRESS_INITIALIZER_def device_event_emit_def s1 s2 s3 s4 s5 len mem
            dc_datetime_now_def Let_def dc_buffer_resize_def dc_buffer_get_data_def)
  }
  {
    fix r d6 data
    assume total: "array_uint32_le answer' = array_uint32_le answer + 4"
      and r: "receive_data d5 (replicate (unat (array_uint32_le answer)) 0, 0)
                  (sint (array_uint32_le answer)) = Ret (r, d6, data)"
    note s6 = receive_data_at [OF r]
    show "scubapro_g2_device_dump hst device buffer =
                Ret (if r \<noteq> 0 then DC_STATUS_IO else DC_STATUS_SUCCESS,
                     device\<lparr>events := events device @
                          [DC_EVENT_PROGRESS 0 0xFFFFFFFF,
                           DC_EVENT_PROGRESS 9 0xFFFFFFFF,
                           DC_EVENT_CLOCK (array_uint32_le clock) (now hst),
                           DC_EVENT_DEVINFO (ucast (model ! 0)) 0 (array_uint32_le serial),
                           DC_EVENT_PROGRESS 13 (4 + 9 + (array_uint32_le answer + 4)),
                           DC_EVENT_PROGRESS 17 (4 + 9 + (array_uint32_le answer + 4))]
                          @ (if r \<noteq> 0 then []
                             else [DC_EVENT_PROGRESS (17 + array_uint32_le answer)
                                     (4 + 9 + (array_uint32_le answer + 4))]),
                        usbhid := usbhid d6,
                        devtime := array_uint32_le clock,
                        systime := now hst\<rparr>,
                     Some data)"
      by (simp add: scubapro_g2_device_dump_def b dc_buffer_clear_def
            EVENT_PROGRESS_INITIALIZER_def device_event_emit_def s1 s2 s3 s4 s5 s6 len mem total
            dc_datetime_now_def Let_def dc_buffer_resize_def dc_buffer_get_data_def)
  }
qed

text \<open>
  A handshake that announces 7 bytes for a length of 2: the packet of the payload is
  still pending on the transport when the dump has returned.
\<close>

lemma dump_mismatch_run:
  "scubapro_g2_device_dump host0 (opened (session_at replies_mismatch 0)) (Some []) =
     Ret (DC_STATUS_PROTOCOL,
          \<lparr>vtable = scubapro_g2_device_vtable,
           events = [DC_EVENT_PROGRESS 0 0xFFFFFFFF, DC_EVENT_PROGRESS 9 0xFFFFFFFF,
                     DC_EVENT_CLOCK 0x08070605 1000, DC_EVENT_DEVINFO 0x11 0 0x04030201,
                     DC_EVENT_PROGRESS 13 19, DC_EVENT_PROGRESS 17 19],
           usbhid = \<lparr>rx = [(DC_STATUS_SUCCESS, packet [0xAA, 0xBB])], tx_status = [],
                      tx = commands_sent\<rparr>,
           address = 0, timestamp = 0, devtime = 0x08070605, systime = 1000\<rparr>,
          Some (replicate 2 0))"
  using dump_handshake [of "opened (session_at replies_mismatch 0)"
          "opened (session_at replies_mismatch 1)" "[0x11]"
          "opened (session_at replies_mismatch 2)" "[1, 2, 3, 4]"
          "opened (session_at replies_mismatch 3)" "[5, 6, 7, 8]"
          "opened (session_at replies_mismatch 4)" "[2, 0, 0, 0]" "Some []" host0
          "opened (session_at replies_mismatch 5)" "[7, 0, 0, 0]"]
  by (simp add: session_eval replies_mismatch_def host0_def)

text \<open>
  C6 fails on the code. The device announces a length of \<open>0xFFFFFFFC\<close> and answers the
  handshake with a total of 0. The total is not the length plus 4, but the sum wraps
  around to 0 in 32 bits, so the dump does not return \<open>DC_STATUS_PROTOCOL\<close>: it goes on
  to the bulk read with the length as an \<open>int\<close>, which is -4. With a full packet on the
  transport the copy is made with a negative length, outside every buffer; with a
  short read the dump returns \<open>DC_STATUS_IO\<close>, the read consumed.
\<close>

theorem dump_wrapped_total:
  "array_uint32_le [0xFC, 0xFF, 0xFF, 0xFF] \<noteq> 0
   \<and> unat (array_uint32_le [0, 0, 0, 0]) \<noteq> unat (array_uint32_le [0xFC, 0xFF, 0xFF, 0xFF]) + 4
   \<and> array_uint32_le [0, 0, 0, 0] = array_uint32_le [0xFC, 0xFF, 0xFF, 0xFF] + 4
   \<and> sint (array_uint32_le [0xFC, 0xFF, 0xFF, 0xFF]) = - 4
   \<and> scubapro_g2_device_dump host0 (opened (session_at replies_wrap 0)) (Some []) = Undefined
   \<and> scubapro_g2_device_dump host0 (opened (session_at replies_wrap_short 0)) (Some [])
     = Ret (DC_STATUS_IO, downloaded_wrap_short, Some (replicate 4294967292 0))"
  by (simp add: dump_eval io_eval replies_wrap_def replies_wrap_short_def
        downloaded_wrap_short_def Let_def)

subsection \<open>Download and extraction together\<close>

lemma dump_null_buffer:
  "scubapro_g2_device_dump hst device None = Ret (DC_STATUS_NOMEMORY, device, None)"
  by (simp add: scubapro_g2_device_dump_def dc_buffer_clear_def)

text \<open>
  C9. \<open>scubapro_g2_device_foreach\<close> is the dump into a fresh buffer followed, exactly
  when the dump succeeds, by the extraction scan on the buffer's data and size with
  the same callback and user data: same status, same session, same callback
  invocations, same user data. A buffer that could not be allocated is the null
  buffer, on which the dump itself returns \<open>DC_STATUS_NOMEMORY\<close> without any I/O.
\<close>

theorem foreach_is_dump_then_extract:
  "scubapro_g2_device_foreach hst session callback userdata
     = foreach_spec hst session callback userdata"
proof (cases "dc_buffer_new hst 0")
  case None
  then show ?thesis
    by (simp add: scubapro_g2_device_foreach_def foreach_spec_def dump_null_buffer)
next
  case (Some b)
  show ?thesis
  proof (cases "scubapro_g2_device_dump hst session (Some b)")
    case (Ret x)
    obtain rc session' buffer where x: "x = (rc, session', buffer)" by (cases x)
    obtain res calls u where
      e: "scubapro_g2_extract_dives (Some session') (dc_buffer_get_data buffer)
            (of_nat (dc_buffer_get_size buffer)) callback userdata = (res, calls, u)"
      by (metis prod_cases3)
    show ?thesis
      using Some Ret x e
      by (cases res) (simp_all add: scubapro_g2_device_foreach_def foreach_spec_def)
  qed (simp_all add: scubapro_g2_device_foreach_def foreach_spec_def Some)
qed

end
